theory Spec2Isabelle
  imports Main "HOL-Library.AList"
begin

section \<open>Python string primitives used by the services\<close>

text \<open>
  Strings are ASCII text, one \<open>char\<close> per character. \<open>is_space\<close> is the ASCII part
  of Python's \<open>str.isspace\<close>, which is what \<open>str.strip()\<close> removes at both ends.
\<close>

definition is_space :: "char \<Rightarrow> bool" where
  "is_space c = (c = CHR 0x09 \<or> c = CHR 0x0A \<or> c = CHR 0x0B \<or> c = CHR 0x0C \<or> c = CHR 0x0D
     \<or> c = CHR 0x1C \<or> c = CHR 0x1D \<or> c = CHR 0x1E \<or> c = CHR 0x1F \<or> c = CHR 0x20)"

definition strip :: "string \<Rightarrow> string" where
  "strip s = rev (dropWhile is_space (rev (dropWhile is_space s)))"

text \<open>
  \<open>find_sep sep s\<close> locates the first occurrence of \<open>sep\<close> in \<open>s\<close> and returns the text
  before it and the text after it (Python's \<open>s.partition(sep)\<close> when the separator occurs).
\<close>

fun find_sep :: "string \<Rightarrow> string \<Rightarrow> (string \<times> string) option" where
  "find_sep sep [] = (if sep = [] then Some ([], []) else None)"
| "find_sep sep (c # cs) =
     (if take (length sep) (c # cs) = sep then Some ([], drop (length sep) (c # cs))
      else (case find_sep sep cs of
              None \<Rightarrow> None
            | Some (a, b) \<Rightarrow> Some (c # a, b)))"

definition contains :: "string \<Rightarrow> string \<Rightarrow> bool" where
  \<comment> \<open>\<open>needle in s\<close>\<close>
  "contains needle s = (find_sep needle s \<noteq> None)"

lemma find_sep_shorter:
  "find_sep sep s = Some (a, b) \<Longrightarrow> sep \<noteq> [] \<Longrightarrow> length b < length s"
proof (induction s arbitrary: a b)
  case Nil
  then show ?case by simp
next
  case (Cons c cs)
  show ?case
  proof (cases "take (length sep) (c # cs) = sep")
    case True
    with Cons.prems show ?thesis by (cases sep) auto
  next
    case False
    with Cons.prems obtain a' where "find_sep sep cs = Some (a', b)"
      by (auto split: option.splits)
    from Cons.IH[OF this Cons.prems(2)] show ?thesis by simp
  qed
qed

text \<open>
  \<open>s.split(sep)\<close> for a separator string. Python raises \<open>ValueError\<close> on the empty
  separator; every call site in the modelled code passes a non-empty literal, and the model
  returns the unsplit string there.
\<close>

function split :: "string \<Rightarrow> string \<Rightarrow> string list" where
  "split sep s =
     (if sep = [] then [s]
      else (case find_sep sep s of
              None \<Rightarrow> [s]
            | Some (a, b) \<Rightarrow> a # split sep b))"
  by pat_completeness auto
termination
  by (relation "measure (\<lambda>(sep, s). length s)") (auto dest: find_sep_shorter)

declare split.simps [simp del]

definition split1 :: "string \<Rightarrow> string \<Rightarrow> string list" where
  \<comment> \<open>\<open>s.split(sep, 1)\<close>\<close>
  "split1 sep s = (case find_sep sep s of None \<Rightarrow> [s] | Some (a, b) \<Rightarrow> [a, b])"

definition os_path_join :: "string \<Rightarrow> string \<Rightarrow> string" where
  \<comment> \<open>\<open>os.path.join(a, b)\<close> on POSIX, two arguments\<close>
  "os_path_join a b =
     (if b \<noteq> [] \<and> hd b = CHR ''/'' then b
      else if a = [] \<or> last a = CHR ''/'' then a @ b
      else a @ ''/'' @ b)"

section \<open>External commands\<close>

text \<open>
  \<open>subprocess.run(argv, cwd=..., capture_output=True, text=True)\<close> either completes with
  a return code and the captured streams, or raises (the executable is missing, the working
  directory cannot be entered). A call is the argument vector and the working directory.

  The environment is deterministic but otherwise arbitrary: what a command answers, and
  whether a path exists, may depend on every command issued before. The list of calls made
  so far is the state that the services thread through; it doubles as the invocation log.
\<close>

datatype proc = Completed int string string | Raised string

type_synonym call = "string list \<times> string"

record env =
  respond :: "call list \<Rightarrow> call \<Rightarrow> proc"
  path_exists :: "call list \<Rightarrow> string \<Rightarrow> bool"

definition subprocess_run :: "env \<Rightarrow> string list \<Rightarrow> string \<Rightarrow> call list \<Rightarrow> proc \<times> call list" where
  \<comment> \<open>\<open>check=False\<close>\<close>
  "subprocess_run e argv cwd h = (respond e h (argv, cwd), h @ [(argv, cwd)])"

datatype checked = Returned string string | CalledProcessError int string string | OSError string

definition run_checked :: "env \<Rightarrow> string list \<Rightarrow> string \<Rightarrow> call list \<Rightarrow> checked \<times> call list" where
  \<comment> \<open>\<open>check=True\<close>: a non-zero return code raises \<open>CalledProcessError\<close>\<close>
  "run_checked e argv cwd h =
     (case subprocess_run e argv cwd h of
        (Completed rc out err, h') \<Rightarrow>
          (if rc = 0 then Returned out err else CalledProcessError rc out err, h')
      | (Raised x, h') \<Rightarrow> (OSError x, h'))"

definition is_write_command :: "call \<Rightarrow> bool" where
  \<comment> \<open>the commands of the modelled services that change the working tree, the index or the history\<close>
  "is_write_command c =
     (take 2 (fst c) = [''datalad'', ''save''] \<or> take 2 (fst c) = [''git'', ''add'']
      \<or> take 2 (fst c) = [''git'', ''commit''] \<or> take 2 (fst c) = [''git'', ''checkout''])"

section \<open>ChangeSetCommitter: \<open>save_all_changes\<close> (routes/api/dataflow\_api.py)\<close>

text \<open>
  The JSON body of the HTTP response, a key absent from the dictionary being \<open>None\<close>,
  together with the status code.
\<close>

record response =
  http_status :: nat
  success :: "bool option"
  message :: "string option"
  error :: "string option"
  commit_message :: "string option"
  output_text :: "string option"
  warning :: "string option"
  save_attempts :: "string list option"
  detailed_status :: "string option"
  suggestion :: "string option"

definition jsonify :: "nat \<Rightarrow> response" where
  "jsonify code = \<lparr> http_status = code, success = None, message = None, error = None,
     commit_message = None, output_text = None, warning = None, save_attempts = None,
     detailed_status = None, suggestion = None \<rparr>"

text \<open>
  The status lines that name a modified nested dataset. \<open>line.split('modified:')[1]\<close>
  would raise \<open>IndexError\<close> on a list of one element; the model returns the exception
  text as \<open>Inl\<close>, and the caller's handler receives it as any other exception.
\<close>

fun parse_subdataset_changes :: "string list \<Rightarrow> string + string list" where
  "parse_subdataset_changes [] = Inr []"
| "parse_subdataset_changes (line # rest) =
     (if contains ''modified:'' line \<and> contains ''(dataset)'' line then
        (case split ''modified:'' line of
           _ # x # _ \<Rightarrow>
             (case parse_subdataset_changes rest of
                Inl ex \<Rightarrow> Inl ex
              | Inr names \<Rightarrow> Inr (strip (hd (split ''(dataset)'' x)) # names))
         | _ \<Rightarrow> Inl ''list index out of range'')
      else parse_subdataset_changes rest)"

text \<open>
  The loop over the modified nested datasets. It returns the exception that left the loop
  (anything but \<open>CalledProcessError\<close>, which the loop body handles), the attempt log and
  the calls made.
\<close>

fun save_subdatasets ::
  "env \<Rightarrow> string \<Rightarrow> string \<Rightarrow> string list \<Rightarrow> string list \<Rightarrow> call list
     \<Rightarrow> string option \<times> string list \<times> call list" where
  "save_subdatasets e dataset_path msg [] attempts h = (None, attempts, h)"
| "save_subdatasets e dataset_path msg (subdataset # rest) attempts h =
     (let subdataset_path = os_path_join dataset_path subdataset in
      if path_exists e h subdataset_path then
        (case run_checked e [''datalad'', ''save'', ''-m'', msg] subdataset_path h of
           (Returned _ _, h1) \<Rightarrow>
             save_subdatasets e dataset_path msg rest
               (attempts @ [''Subdataset '' @ subdataset @ '' save: SUCCESS'']) h1
         | (OSError x, h1) \<Rightarrow> (Some x, attempts, h1)
         | (CalledProcessError _ _ _, h1) \<Rightarrow>
             (case run_checked e [''datalad'', ''save'', ''-m'', msg, subdataset] dataset_path h1 of
                (Returned _ _, h2) \<Rightarrow>
                  save_subdatasets e dataset_path msg rest
                    (attempts @ [''Subdataset '' @ subdataset @ '' reference save: SUCCESS'']) h2
              | (CalledProcessError _ _ _, h2) \<Rightarrow>
                  save_subdatasets e dataset_path msg rest
                    (attempts @ [''Subdataset '' @ subdataset @ '' save: FAILED'']) h2
              | (OSError x, h2) \<Rightarrow> (Some x, attempts, h2)))
      else save_subdatasets e dataset_path msg rest attempts h)"

definition all_saved :: "string \<Rightarrow> string option \<Rightarrow> string list \<Rightarrow> response" where
  \<comment> \<open>the final \<open>return jsonify\<close> of the function; \<open>result\<close> is \<open>None\<close> when no save returned\<close>
  "all_saved msg result attempts =
     (jsonify 200) \<lparr> success := Some True,
       message := Some ''All changes have been saved to DataLad'',
       commit_message := Some msg,
       output_text := Some (case result of Some out \<Rightarrow> out | None \<Rightarrow> ''No output available''),
       save_attempts := Some attempts \<rparr>"

definition all_failed :: "string \<Rightarrow> string list \<Rightarrow> string \<Rightarrow> response" where
  \<comment> \<open>the handler \<open>except Exception as e3\<close> of the third approach\<close>
  "all_failed x attempts status_stdout =
     (jsonify 500) \<lparr> error := Some (''All save attempts failed: '' @ x),
       save_attempts := Some (attempts @ [''Individual subdataset save: FAILED - '' @ x]),
       detailed_status := Some status_stdout,
       suggestion := Some ''Try manual datalad save commands'' \<rparr>"

definition degraded :: "string \<Rightarrow> string list \<Rightarrow> string \<Rightarrow> response" where
  \<comment> \<open>approach 5, graceful degradation\<close>
  "degraded msg attempts status_stdout =
     (jsonify 200) \<lparr> success := Some True,
       message := Some ''Some changes may not have been saved due to persistent subdataset issues. The dataset should be usable.'',
       commit_message := Some msg,
       warning := Some ''Persistent r4 subdataset changes detected'',
       save_attempts := Some attempts,
       detailed_status := Some status_stdout,
       suggestion := Some ''You may need to manually resolve subdataset issues'' \<rparr>"

definition unexpected :: "string \<Rightarrow> string list \<Rightarrow> response" where
  \<comment> \<open>the outermost handler \<open>except Exception as e\<close>\<close>
  "unexpected x attempts =
     (jsonify 500) \<lparr> error := Some (''Unexpected error saving changes: '' @ x),
       save_attempts := Some attempts \<rparr>"

definition force_git :: "env \<Rightarrow> string \<Rightarrow> string \<Rightarrow> string \<Rightarrow> string list \<Rightarrow> call list
     \<Rightarrow> response \<times> call list" where
  \<comment> \<open>approach 4, entered only when the status output mentions \<open>r4\<close>\<close>
  "force_git e dataset_path msg status_stdout attempts h =
     (if contains ''r4'' status_stdout then
        (case run_checked e [''git'', ''add'', ''r4''] dataset_path h of
           (OSError x, h1) \<Rightarrow> (all_failed x attempts status_stdout, h1)
         | (CalledProcessError _ _ err, h1) \<Rightarrow>
             (degraded msg (attempts @ [''Force git add/commit for r4: FAILED - '' @ err]) status_stdout, h1)
         | (Returned _ _, h1) \<Rightarrow>
             (case run_checked e
                     [''git'', ''commit'', ''-m'', ''Force save subdataset reference: '' @ msg]
                     dataset_path h1 of
                (OSError x, h2) \<Rightarrow> (all_failed x attempts status_stdout, h2)
              | (CalledProcessError _ _ err, h2) \<Rightarrow>
                  (degraded msg (attempts @ [''Force git add/commit for r4: FAILED - '' @ err])
                     status_stdout, h2)
              | (Returned _ _, h2) \<Rightarrow>
                  (all_saved msg None (attempts @ [''Force git add/commit for r4: SUCCESS'']), h2)))
      else (all_saved msg None attempts, h))"

definition individual_saves :: "env \<Rightarrow> string \<Rightarrow> string \<Rightarrow> string \<Rightarrow> string list \<Rightarrow> call list
     \<Rightarrow> response \<times> call list" where
  \<comment> \<open>approach 3, then approach 4\<close>
  "individual_saves e dataset_path msg status_stdout attempts h =
     (case parse_subdataset_changes (split ''\<newline>'' (strip status_stdout)) of
        Inl x \<Rightarrow> (all_failed x attempts status_stdout, h)
      | Inr subdataset_changes \<Rightarrow>
          (case save_subdatasets e dataset_path msg subdataset_changes attempts h of
             (Some x, attempts1, h1) \<Rightarrow> (all_failed x attempts1 status_stdout, h1)
           | (None, attempts1, h1) \<Rightarrow> force_git e dataset_path msg status_stdout attempts1 h1))"

definition regular_save :: "env \<Rightarrow> string \<Rightarrow> string \<Rightarrow> string \<Rightarrow> string list \<Rightarrow> call list
     \<Rightarrow> response \<times> call list" where
  \<comment> \<open>approach 2\<close>
  "regular_save e dataset_path msg status_stdout attempts h =
     (case run_checked e [''datalad'', ''save'', ''-m'', msg] dataset_path h of
        (Returned out _, h1) \<Rightarrow> (all_saved msg (Some out) (attempts @ [''Regular save: SUCCESS'']), h1)
      | (OSError x, h1) \<Rightarrow> (unexpected x attempts, h1)
      | (CalledProcessError _ _ err, h1) \<Rightarrow>
          individual_saves e dataset_path msg status_stdout
            (attempts @ [''Regular save: FAILED - '' @ err]) h1)"

definition recursive_save :: "env \<Rightarrow> string \<Rightarrow> string \<Rightarrow> string \<Rightarrow> call list
     \<Rightarrow> response \<times> call list" where
  \<comment> \<open>approach 1, with \<open>save_attempts = []\<close>\<close>
  "recursive_save e dataset_path msg status_stdout h =
     (case run_checked e [''datalad'', ''save'', ''-r'', ''-m'', msg] dataset_path h of
        (Returned out _, h1) \<Rightarrow> (all_saved msg (Some out) [''Recursive save: SUCCESS''], h1)
      | (OSError x, h1) \<Rightarrow> (unexpected x [], h1)
      | (CalledProcessError _ _ err, h1) \<Rightarrow>
          regular_save e dataset_path msg status_stdout [''Recursive save: FAILED - '' @ err] h1)"

text \<open>
  \<open>save_all_changes\<close>. \<open>is_admin\<close> is the access check
  \<open>dataflow.project.admin_id == current_user.id\<close>; the dataset path of the project may be
  empty or absent, both falsy in Python and both the empty string here.
\<close>

definition save_all_changes :: "env \<Rightarrow> bool \<Rightarrow> string \<Rightarrow> string \<Rightarrow> call list
     \<Rightarrow> response \<times> call list" where
  "save_all_changes e is_admin dataset_path msg h =
     (if \<not> is_admin then ((jsonify 403) \<lparr> error := Some ''Access denied'' \<rparr>, h)
      else if dataset_path = [] then ((jsonify 404) \<lparr> error := Some ''No dataset path found'' \<rparr>, h)
      else (case subprocess_run e [''datalad'', ''status''] dataset_path h of
              (Raised x, h1) \<Rightarrow> (unexpected x [], h1)
            | (Completed rc out err, h1) \<Rightarrow>
                (if rc \<noteq> 0 then
                   ((jsonify 500) \<lparr> error := Some (''Failed to check dataset status: '' @ err) \<rparr>, h1)
                 else if strip out = [] then
                   ((jsonify 200) \<lparr> success := Some True, message := Some ''No changes to save'',
                      commit_message := Some msg \<rparr>, h1)
                 else recursive_save e dataset_path msg out h1)))"

section \<open>FileRestorer: \<open>restore_file_to_commit\<close> (services/git\_operations.py)\<close>

datatype exn =
    DatasetError string
  | GitOperationError string
  | Uncaught string  \<comment> \<open>an exception of \<open>subprocess.run\<close> itself, which no handler of the function catches\<close>

record restore_result =
  rr_success :: bool
  rr_message :: string
  rr_commit_hash :: string
  rr_file_path :: string

definition check_file_exists_in_commit ::
  "env \<Rightarrow> string \<Rightarrow> string \<Rightarrow> string \<Rightarrow> call list \<Rightarrow> bool \<times> call list" where
  "check_file_exists_in_commit e dataset_path file_path commit_hash h =
     (if \<not> path_exists e h dataset_path then (False, h)
      else (case subprocess_run e [''git'', ''show'', commit_hash @ '':'' @ file_path] dataset_path h of
              (Completed rc _ _, h1) \<Rightarrow> (rc = 0, h1)
            | (Raised _, h1) \<Rightarrow> (False, h1)))"

definition restore_commit_msg :: "string option \<Rightarrow> string \<Rightarrow> string \<Rightarrow> string" where
  \<comment> \<open>\<open>commit_message or f"Restore {file_path} from commit {commit_hash}"\<close>\<close>
  "restore_commit_msg given_message file_path commit_hash =
     (case given_message of
        Some m \<Rightarrow> if m = [] then ''Restore '' @ file_path @ '' from commit '' @ commit_hash else m
      | None \<Rightarrow> ''Restore '' @ file_path @ '' from commit '' @ commit_hash)"

text \<open>
  The plain-VCS part after the checkout: stage the path, read the status, commit unless
  nothing is staged. The third component is what \<open>print\<close> wrote. A non-zero exit of
  \<open>git add\<close> or \<open>git commit\<close> only prints a warning.
\<close>

definition stage_and_commit ::
  "env \<Rightarrow> string \<Rightarrow> string \<Rightarrow> string \<Rightarrow> call list \<Rightarrow> string list
     \<Rightarrow> (exn + unit) \<times> call list \<times> string list" where
  "stage_and_commit e dataset_path file_path commit_msg h log =
     (case subprocess_run e [''git'', ''add'', file_path] dataset_path h of
        (Raised x, h1) \<Rightarrow> (Inl (Uncaught x), h1, log @ [''Adding '' @ file_path @ '' to git''])
      | (Completed rc_add _ err_add, h1) \<Rightarrow>
          (let log1 = log @ [''Adding '' @ file_path @ '' to git'']
                 @ (if rc_add \<noteq> 0 then [''Warning: git add failed: '' @ err_add] else [])
           in case subprocess_run e [''git'', ''status'', ''--porcelain''] dataset_path h1 of
                (Raised x, h2) \<Rightarrow> (Inl (Uncaught x), h2, log1)
              | (Completed _ status_out _, h2) \<Rightarrow>
                  (let log2 = log1 @ [''Git status before commit: '' @ status_out,
                                      ''Committing restoration with message: '' @ commit_msg]
                   in if strip status_out = [] then
                        (Inr (), h2, log2 @ [''No staged changes to commit, skipping commit step''])
                      else (case subprocess_run e [''git'', ''commit'', ''-m'', commit_msg] dataset_path h2 of
                              (Raised x, h3) \<Rightarrow> (Inl (Uncaught x), h3, log2)
                            | (Completed rc_commit _ err_commit, h3) \<Rightarrow>
                                (Inr (), h3,
                                 log2 @ (if rc_commit \<noteq> 0
                                         then [''Warning: git commit failed: '' @ err_commit] else []))))))"

text \<open>
  Everything before the content-tracking layer is consulted: the existence of the dataset,
  the precondition, the checkout, the verification, then \<open>stage_and_commit\<close>.
\<close>

definition restore_plain_vcs ::
  "env \<Rightarrow> string \<Rightarrow> string \<Rightarrow> string \<Rightarrow> string option \<Rightarrow> call list
     \<Rightarrow> (exn + unit) \<times> call list \<times> string list" where
  "restore_plain_vcs e dataset_path file_path commit_hash given_message h =
     (if \<not> path_exists e h dataset_path then
        (Inl (DatasetError (''Dataset path does not exist: '' @ dataset_path)), h, [])
      else (case check_file_exists_in_commit e dataset_path file_path commit_hash h of
              (False, h1) \<Rightarrow>
                (Inl (GitOperationError
                        (''File '' @ file_path @ '' does not exist in commit '' @ commit_hash)), h1, [])
            | (True, h1) \<Rightarrow>
                (let log1 = [''Attempting to restore '' @ file_path @ '' from commit '' @ commit_hash]
                 in case subprocess_run e [''git'', ''checkout'', commit_hash, ''--'', file_path]
                           dataset_path h1 of
                      (Raised x, h2) \<Rightarrow> (Inl (Uncaught x), h2, log1)
                    | (Completed rc out err, h2) \<Rightarrow>
                        (if rc \<noteq> 0 then
                           (Inl (GitOperationError
                                   (''Failed to restore file '' @ file_path @ '' from commit ''
                                      @ commit_hash @ '': ''
                                      @ (if err \<noteq> [] then err
                                         else if out \<noteq> [] then out else ''Unknown error''))),
                            h2, log1)
                         else if \<not> path_exists e h2 (os_path_join dataset_path file_path) then
                           (Inl (GitOperationError
                                   (''File '' @ file_path @ '' was not restored to ''
                                      @ os_path_join dataset_path file_path)),
                            h2, log1)
                         else stage_and_commit e dataset_path file_path
                                (restore_commit_msg given_message file_path commit_hash) h2 log1))))"

text \<open>
  The final step: when the dataset has a \<open>.datalad\<close> directory, save through DataLad with
  the same message. A non-zero exit and an exception are both printed and nothing else.
\<close>

definition datalad_save_step ::
  "env \<Rightarrow> string \<Rightarrow> string \<Rightarrow> call list \<Rightarrow> string list \<Rightarrow> call list \<times> string list" where
  "datalad_save_step e dataset_path commit_msg h log =
     (if path_exists e h (os_path_join dataset_path ''.datalad'') then
        (case subprocess_run e [''datalad'', ''save'', ''-m'', commit_msg] dataset_path h of
           (Completed rc _ err, h1) \<Rightarrow>
             (h1, log @ [''Saving to DataLad with message: '' @ commit_msg]
                    @ (if rc \<noteq> 0 then [''Warning: datalad save failed: '' @ err] else []))
         | (Raised x, h1) \<Rightarrow>
             (h1, log @ [''Saving to DataLad with message: '' @ commit_msg,
                         ''Warning: datalad save failed with exception: '' @ x]))
      else (h, log))"

definition restored :: "string \<Rightarrow> string \<Rightarrow> restore_result" where
  \<comment> \<open>the dictionary the function returns\<close>
  "restored file_path commit_hash =
     \<lparr> rr_success = True,
       rr_message = ''File '' @ file_path @ '' restored from commit '' @ commit_hash,
       rr_commit_hash = commit_hash, rr_file_path = file_path \<rparr>"

definition restore_file_to_commit ::
  "env \<Rightarrow> string \<Rightarrow> string \<Rightarrow> string \<Rightarrow> string option \<Rightarrow> call list
     \<Rightarrow> (exn + restore_result) \<times> call list \<times> string list" where
  "restore_file_to_commit e dataset_path file_path commit_hash given_message h =
     (case restore_plain_vcs e dataset_path file_path commit_hash given_message h of
        (Inl x, h1, log1) \<Rightarrow> (Inl x, h1, log1)
      | (Inr _, h1, log1) \<Rightarrow>
          (case datalad_save_step e dataset_path
                  (restore_commit_msg given_message file_path commit_hash) h1 log1 of
             (h2, log2) \<Rightarrow> (Inr (restored file_path commit_hash), h2, log2)))"

section \<open>WorkflowGraphSynthesizer: \<open>create_dataflow_from_dataset\<close> (services/metadata\_operations.py)\<close>

subsection \<open>The dataset as the synthesizer sees it\<close>

text \<open>
  The synthesizer only reads. It sees the directory tree below the dataset path (the order
  of a list of entries is the order of \<open>os.listdir\<close>) and the answers of two query
  commands run in the dataset: \<open>git ls-files --error-unmatch <path>\<close> and
  \<open>datalad status <stage>\<close>. The tree is taken as readable throughout (no
  \<open>PermissionError\<close>, every \<open>os.stat\<close> succeeds); sizes and modification times, which do
  not reach the graph, are left out.
\<close>

datatype fs_node = File string nat | Dir string "fs_node list"

record dataset_view =
  root_exists :: bool
  root_entries :: "fs_node list"
  git_ls_files :: "string \<Rightarrow> proc"
  datalad_status :: "string \<Rightarrow> proc"

fun entry_name :: "fs_node \<Rightarrow> string" where
  "entry_name (File n _) = n"
| "entry_name (Dir n _) = n"

subsection \<open>\<open>get_file_tree\<close> (services/file\_operations.py)\<close>

datatype tree_item =
    FileItem string string nat  \<comment> \<open>name, path, size\<close>
  | DirItem string string "tree_item list"  \<comment> \<open>name, path, children\<close>

fun is_file_item :: "tree_item \<Rightarrow> bool" where
  "is_file_item (FileItem _ _ _) = True"
| "is_file_item (DirItem _ _ _) = False"

definition relative_item_path :: "string \<Rightarrow> string \<Rightarrow> string" where
  \<comment> \<open>\<open>os.path.join(relative_path, item) if relative_path else item\<close>\<close>
  "relative_item_path relative_path item =
     (if relative_path \<noteq> [] then os_path_join relative_path item else item)"

fun build_tree :: "string \<Rightarrow> fs_node list \<Rightarrow> tree_item list" where
  "build_tree relative_path [] = []"
| "build_tree relative_path (File item sz # rest) =
     (if item = ''.DS_Store'' then build_tree relative_path rest
      else FileItem item (relative_item_path relative_path item) sz # build_tree relative_path rest)"
| "build_tree relative_path (Dir item sub # rest) =
     (if item = ''.git'' \<or> item = ''.datalad'' then build_tree relative_path rest
      else DirItem item (relative_item_path relative_path item)
             (build_tree (relative_item_path relative_path item) sub)
           # build_tree relative_path rest)"

definition get_file_tree :: "dataset_view \<Rightarrow> string \<Rightarrow> exn + tree_item list" where
  "get_file_tree v dataset_path =
     (if \<not> root_exists v then Inl (DatasetError (''Dataset path does not exist: '' @ dataset_path))
      else Inr (build_tree [] (root_entries v)))"

subsection \<open>\<open>get_stage_files\<close>: the status counts of a stage directory\<close>

definition check_file_in_git :: "dataset_view \<Rightarrow> string \<Rightarrow> bool" where
  \<comment> \<open>\<open>_check_file_in_git\<close>: the return code is 0; an exception counts as untracked\<close>
  "check_file_in_git v file_path =
     (case git_ls_files v file_path of Completed rc _ _ \<Rightarrow> rc = 0 | Raised _ \<Rightarrow> False)"

definition startswith :: "string \<Rightarrow> string \<Rightarrow> bool" where
  "startswith s p = (take (length p) s = p)"

definition basename :: "string \<Rightarrow> string" where
  \<comment> \<open>\<open>os.path.basename\<close>: what follows the last slash\<close>
  "basename p = rev (takeWhile (\<lambda>c. c \<noteq> CHR ''/'') (rev p))"

record deleted_file =
  df_name :: string
  df_path :: string

definition deleted_of_line :: "string \<Rightarrow> deleted_file list" where
  "deleted_of_line raw =
     (let line = strip raw in
      if startswith line ''deleted:'' then
        (case split1 '':'' line of
           [_, rest] \<Rightarrow>
             (let file_info = strip rest;
                  file_info = (if contains ''('' file_info then strip (hd (split ''('' file_info))
                               else file_info)
              in [\<lparr> df_name = basename file_info, df_path = file_info \<rparr>])
         | _ \<Rightarrow> [])
      else [])"

definition get_deleted_files :: "dataset_view \<Rightarrow> string \<Rightarrow> deleted_file list" where
  \<comment> \<open>\<open>_get_deleted_files\<close>: any failure gives the empty list\<close>
  "get_deleted_files v stage_name =
     (case datalad_status v stage_name of
        Completed rc out _ \<Rightarrow>
          (if rc = 0 then concat (map deleted_of_line (split ''\<newline>'' (strip out))) else [])
      | Raised _ \<Rightarrow> [])"

definition rel_join :: "string \<Rightarrow> string \<Rightarrow> string" where
  \<comment> \<open>the path of an entry relative to the directory the walk started at\<close>
  "rel_join rel n = (if rel = [] then n else rel @ ''/'' @ n)"

text \<open>
  \<open>os.walk\<close> from a directory, top-down: the files of the directory itself (all but
  \<open>.DS_Store\<close>), then its sub-directories in turn, as paths relative to the start.
\<close>

fun walk_files :: "string \<Rightarrow> fs_node \<Rightarrow> string list" where
  "walk_files rel (File n sz) = []"
| "walk_files rel (Dir n entries) =
     concat (map (\<lambda>x. case x of File m _ \<Rightarrow> (if m = ''.DS_Store'' then [] else [rel_join rel m])
                              | Dir _ _ \<Rightarrow> []) entries)
     @ concat (map (\<lambda>x. case x of File _ _ \<Rightarrow> []
                                | Dir m _ \<Rightarrow> walk_files (rel_join rel m) x) entries)"

text \<open>
  \<open>get_stage_files\<close> is called with the name of a stage directory (never \<open>.\<close>, the
  dataset root). Its call of \<open>_get_datalad_status\<close> is left out: the value is not used
  and a failure of it is swallowed.

  The result of \<open>get_stage_files\<close>, as far as \<open>create_dataflow_from_dataset\<close> reads it:
  \<open>StageAbsent\<close> is the dictionary returned when the stage path does not exist, whose
  metadata has no \<open>tracked_files\<close> key; \<open>StageCounts\<close> carries \<open>file_count\<close>,
  \<open>tracked_files\<close>, \<open>untracked_files\<close> and \<open>deleted_files\<close>.
\<close>

datatype stage_data = StageAbsent | StageCounts nat nat nat nat

definition get_stage_files :: "dataset_view \<Rightarrow> string \<Rightarrow> stage_data option" where
  "get_stage_files v stage_name =
     (if \<not> root_exists v then None
      else (case find (\<lambda>x. entry_name x = stage_name) (root_entries v) of
              None \<Rightarrow> Some StageAbsent
            | Some stage_dir \<Rightarrow>
                (let deleted_files = get_deleted_files v stage_name;
                     files = walk_files [] stage_dir;
                     tracked = filter (\<lambda>rel_path. check_file_in_git v (os_path_join stage_name rel_path)) files;
                     untracked = filter (\<lambda>rel_path. \<not> check_file_in_git v (os_path_join stage_name rel_path)) files
                 in Some (StageCounts (length files) (length tracked) (length untracked)
                            (length deleted_files)))))"

subsection \<open>The graph\<close>

record node =
  node_id :: nat
  label :: string
  node_type :: string
  path :: string
  color :: string
  description :: string
  file_count :: nat
  tracked_files :: "nat option"
  untracked_files :: "nat option"
  deleted_files :: "nat option"
  has_untracked :: "bool option"
  has_deleted :: "bool option"
  is_central :: bool

record edge =
  edge_from :: nat
  edge_to :: nat
  arrows :: string
  edge_label :: string
  edge_color :: string

record dataflow =
  nodes :: "node list"
  edges :: "edge list"
  total_stages :: nat
  total_connections :: nat

record dir_type =
  dt_color :: string
  dt_type :: string
  dt_description :: string

definition directory_types :: "(string \<times> dir_type) list" where
  "directory_types =
     [(''raw_data'', \<lparr> dt_color = ''#87CEEB'', dt_type = ''raw_data'', dt_description = ''Raw data files'' \<rparr>),
      (''preprocessed'', \<lparr> dt_color = ''#90EE90'', dt_type = ''preprocessed'',
                          dt_description = ''Preprocessed data files'' \<rparr>),
      (''scripts'', \<lparr> dt_color = ''#4CAF50'', dt_type = ''scripts'',
                     dt_description = ''Analysis and processing scripts'' \<rparr>),
      (''results'', \<lparr> dt_color = ''#FFA07A'', dt_type = ''results'',
                     dt_description = ''Final results and outputs'' \<rparr>),
      (''plots'', \<lparr> dt_color = ''#DDA0DD'', dt_type = ''plots'',
                   dt_description = ''Generated visualizations'' \<rparr>)]"

definition missing_stages :: "(string \<times> dir_type) list" where
  "missing_stages =
     [(''scripts'', \<lparr> dt_color = ''#4CAF50'', dt_type = ''scripts'',
                     dt_description = ''Analysis and processing scripts'' \<rparr>),
      (''results'', \<lparr> dt_color = ''#FFA07A'', dt_type = ''results'',
                     dt_description = ''Final results and outputs'' \<rparr>),
      (''plots'', \<lparr> dt_color = ''#DDA0DD'', dt_type = ''plots'',
                   dt_description = ''Generated visualizations'' \<rparr>)]"

function show_nat :: "nat \<Rightarrow> string" where
  \<comment> \<open>the decimal digits of a count, as an f-string prints it\<close>
  "show_nat n = (if n < 10 then [''0123456789'' ! n]
                 else show_nat (n div 10) @ [''0123456789'' ! (n mod 10)])"
  by pat_completeness auto
termination
  by (relation "measure id") auto

declare show_nat.simps [simp del]

fun str_join :: "string \<Rightarrow> string list \<Rightarrow> string" where
  \<comment> \<open>\<open>sep.join(parts)\<close>\<close>
  "str_join sep [] = []"
| "str_join sep [x] = x"
| "str_join sep (x # y # ys) = x @ sep @ str_join sep (y # ys)"

definition central_node :: "string \<Rightarrow> nat \<Rightarrow> node" where
  "central_node dataset_path nid =
     \<lparr> node_id = nid, label = ''Dataset Root'', node_type = ''dataset_root'', path = dataset_path,
       color = ''#4CAF50'', description = ''Root of the research dataset'', file_count = 0,
       tracked_files = None, untracked_files = None, deleted_files = None,
       has_untracked = None, has_deleted = None, is_central = True \<rparr>"

definition status_color :: "string \<Rightarrow> nat \<Rightarrow> nat \<Rightarrow> string" where
  \<comment> \<open>the node colour from the base colour, the deleted count and the untracked count\<close>
  "status_color base_color deleted_count untracked_count =
     (if deleted_count > 0 then ''#FF6B6B''
      else if untracked_count > 0 then ''#FFA500''
      else base_color)"

definition status_label :: "string \<Rightarrow> nat \<Rightarrow> nat \<Rightarrow> nat \<Rightarrow> string" where
  "status_label name file_cnt untracked_count deleted_count =
     (let status_parts =
            (if file_cnt > 0 then [show_nat file_cnt @ '' files''] else [])
            @ (if untracked_count > 0 then [show_nat untracked_count @ '' untracked''] else [])
            @ (if deleted_count > 0 then [show_nat deleted_count @ '' deleted''] else [])
      in if status_parts \<noteq> [] then name @ ''\<newline>('' @ str_join '', '' status_parts @ '')''
         else name @ ''\<newline>(0 files)'')"

definition stage_node ::
  "nat \<Rightarrow> string \<Rightarrow> string \<Rightarrow> dir_type \<Rightarrow> nat \<Rightarrow> nat \<Rightarrow> nat \<Rightarrow> nat \<Rightarrow> node" where
  "stage_node nid name item_path dt file_cnt tracked_count untracked_count deleted_count =
     \<lparr> node_id = nid, label = status_label name file_cnt untracked_count deleted_count,
       node_type = dt_type dt, path = item_path,
       color = status_color (dt_color dt) deleted_count untracked_count,
       description = dt_description dt, file_count = file_cnt,
       tracked_files = Some tracked_count, untracked_files = Some untracked_count,
       deleted_files = Some deleted_count,
       has_untracked = Some (untracked_count > 0), has_deleted = Some (deleted_count > 0),
       is_central = False \<rparr>"

definition placeholder_node :: "nat \<Rightarrow> string \<Rightarrow> dir_type \<Rightarrow> node" where
  "placeholder_node nid stage_name stage_info =
     \<lparr> node_id = nid, label = stage_name @ ''\<newline>(0 files)'', node_type = dt_type stage_info,
       path = stage_name @ ''/'', color = dt_color stage_info,
       description = dt_description stage_info, file_count = 0,
       tracked_files = None, untracked_files = None, deleted_files = None,
       has_untracked = None, has_deleted = None, is_central = False \<rparr>"

definition contains_edge :: "nat \<Rightarrow> nat \<Rightarrow> edge" where
  "contains_edge central_node_id dir_node_id =
     \<lparr> edge_from = central_node_id, edge_to = dir_node_id, arrows = ''to'',
       edge_label = ''contains'', edge_color = ''#666'' \<rparr>"

text \<open>
  The loop over the file tree. The state is the node list, the dictionary
  \<open>directory_nodes\<close> (an association list in insertion order; assigning to a key that is
  present keeps its place) and the next node id. Reading \<open>tracked_files\<close> from the
  metadata of an absent stage raises \<open>KeyError\<close>, which leaves the loop.
\<close>

type_synonym synth_state = "node list \<times> (string \<times> nat) list \<times> nat"

fun add_directory_nodes :: "dataset_view \<Rightarrow> tree_item list \<Rightarrow> synth_state \<Rightarrow> string + synth_state" where
  "add_directory_nodes v [] st = Inr st"
| "add_directory_nodes v (FileItem _ _ _ # rest) st = add_directory_nodes v rest st"
| "add_directory_nodes v (DirItem name item_path children # rest) (ns, directory_nodes, nid) =
     (case map_of directory_types name of
        None \<Rightarrow> add_directory_nodes v rest (ns, directory_nodes, nid)
      | Some dt \<Rightarrow>
          (let file_cnt = length (filter is_file_item children) in
           case get_stage_files v name of
             Some StageAbsent \<Rightarrow> Inl ([CHR 0x27] @ ''tracked_files'' @ [CHR 0x27])
           | Some (StageCounts _ tracked_count untracked_count deleted_count) \<Rightarrow>
               add_directory_nodes v rest
                 (ns @ [stage_node nid name item_path dt file_cnt tracked_count untracked_count deleted_count],
                  AList.update name nid directory_nodes, nid + 1)
           | None \<Rightarrow>
               add_directory_nodes v rest
                 (ns @ [stage_node nid name item_path dt file_cnt 0 0 0],
                  AList.update name nid directory_nodes, nid + 1)))"

fun add_missing_stages :: "(string \<times> dir_type) list \<Rightarrow> synth_state \<Rightarrow> synth_state" where
  "add_missing_stages [] st = st"
| "add_missing_stages ((stage_name, stage_info) # rest) (ns, directory_nodes, nid) =
     (if map_of directory_nodes stage_name = None then
        add_missing_stages rest
          (ns @ [placeholder_node nid stage_name stage_info],
           AList.update stage_name nid directory_nodes, nid + 1)
      else add_missing_stages rest (ns, directory_nodes, nid))"

text \<open>The fallback for a graph with the central node alone.\<close>

fun add_basic_dirs :: "nat \<Rightarrow> string list \<Rightarrow> node list \<times> edge list \<times> nat \<Rightarrow> node list \<times> edge list \<times> nat" where
  "add_basic_dirs central_node_id [] st = st"
| "add_basic_dirs central_node_id (dir_name # rest) (ns, es, nid) =
     (let dir_info = (case map_of directory_types dir_name of
                        Some dt \<Rightarrow> dt
                      | None \<Rightarrow> \<lparr> dt_color = ''#87CEEB'', dt_type = ''raw_data'',
                                  dt_description = dir_name @ '' directory'' \<rparr>)
      in add_basic_dirs central_node_id rest
           (ns @ [placeholder_node nid dir_name dir_info],
            es @ [contains_edge central_node_id nid], nid + 1))"

definition exn_text :: "exn \<Rightarrow> string" where
  "exn_text x = (case x of DatasetError m \<Rightarrow> m | GitOperationError m \<Rightarrow> m | Uncaught m \<Rightarrow> m)"

definition create_dataflow_from_dataset :: "dataset_view \<Rightarrow> string \<Rightarrow> exn + dataflow" where
  "create_dataflow_from_dataset v dataset_path =
     (if \<not> root_exists v then Inl (DatasetError (''Dataset path does not exist: '' @ dataset_path))
      else (case get_file_tree v dataset_path of
              Inl x \<Rightarrow> Inl (DatasetError (''Failed to create dataflow from dataset: '' @ exn_text x))
            | Inr file_tree \<Rightarrow>
                (let central_node_id = 1 in
                 case add_directory_nodes v file_tree ([central_node dataset_path central_node_id], [], 2) of
                   Inl x \<Rightarrow> Inl (DatasetError (''Failed to create dataflow from dataset: '' @ x))
                 | Inr st \<Rightarrow>
                     (case add_missing_stages missing_stages st of
                        (ns, directory_nodes, nid) \<Rightarrow>
                          (let es = map (\<lambda>(dir_name, dir_node_id). contains_edge central_node_id dir_node_id)
                                      directory_nodes;
                               (ns', es', nid') =
                                 (if length ns = 1 then
                                    add_basic_dirs central_node_id
                                      [''raw_data'', ''preprocessed'', ''scripts'', ''results'', ''plots'']
                                      (ns, es, nid)
                                  else (ns, es, nid))
                           in Inr \<lparr> nodes = ns', edges = es', total_stages = length ns',
                                    total_connections = length es' \<rparr>)))))"

subsection \<open>The invariant of the synthesis loops\<close>

text \<open>
  The ids of the nodes are \<open>1, 2, ...\<close> up to the next id, the first node is the only
  central one, and the ids stored in \<open>directory_nodes\<close> are distinct ids of non-central
  nodes.
\<close>

definition wf_state :: "node list \<Rightarrow> (string \<times> nat) list \<Rightarrow> nat \<Rightarrow> bool" where
  "wf_state ns directory_nodes nid =
     (map node_id ns = [1..<nid] \<and> 2 \<le> nid \<and> is_central (hd ns)
      \<and> (\<forall>n \<in> set (tl ns). \<not> is_central n)
      \<and> distinct (map snd directory_nodes) \<and> set (map snd directory_nodes) \<subseteq> {2..<nid})"

section \<open>History queries: \<open>get_detailed_git_log\<close> (services/git\_operations.py)\<close>

text \<open>
  One dictionary of the returned list. \<open>formatted_date\<close> and \<open>relative_date\<close> are
  computed from the date field and the clock inside a \<open>try\<close> whose handler supplies
  defaults, so they never decide whether a record is produced; the function that computes
  the pair is a parameter. The limit is a count, printed in decimal into the command line.
\<close>

record commit_record =
  full_hash :: string
  short_hash :: string
  author_name :: string
  author_email :: string
  date :: string
  formatted_date :: string
  relative_date :: string
  subject :: string  \<comment> \<open>the key \<open>message\<close>\<close>
  body :: string

definition parse_log_line :: "(string \<Rightarrow> string \<times> string) \<Rightarrow> string \<Rightarrow> commit_record list" where
  \<comment> \<open>the body of the loop over the output lines: no record or one record\<close>
  "parse_log_line date_labels line =
     (if strip line \<noteq> [] then
        (let parts = split ''|'' line in
         if length parts \<ge> 6 then
           [\<lparr> full_hash = parts ! 0, short_hash = parts ! 1, author_name = parts ! 2,
              author_email = parts ! 3, date = parts ! 4,
              formatted_date = fst (date_labels (parts ! 4)),
              relative_date = snd (date_labels (parts ! 4)),
              subject = parts ! 5,
              body = (if length parts > 6 then parts ! 6 else []) \<rparr>]
         else [])
      else [])"

definition get_detailed_git_log ::
  "env \<Rightarrow> (string \<Rightarrow> string \<times> string) \<Rightarrow> string \<Rightarrow> nat \<Rightarrow> call list
     \<Rightarrow> (exn + commit_record list) \<times> call list" where
  "get_detailed_git_log e date_labels dataset_path limit h =
     (if \<not> path_exists e h dataset_path then
        (Inl (DatasetError (''Dataset path does not exist: '' @ dataset_path)), h)
      else (case run_checked e
                   [''git'', ''log'', ''--pretty=format:%H|%h|%an|%ae|%ad|%s|%b'', ''--date=iso'',
                    ''-n'', show_nat limit] dataset_path h of
              (Returned out _, h1) \<Rightarrow>
                (Inr (concat (map (parse_log_line date_labels) (split ''\<newline>'' (strip out)))), h1)
            | (CalledProcessError _ _ err, h1) \<Rightarrow>
                (Inl (GitOperationError (''Failed to get detailed git log: '' @ err)), h1)
            | (OSError x, h1) \<Rightarrow> (Inl (Uncaught x), h1)))"

subsection \<open>What the log command prints\<close>

text \<open>
  A commit as the format string of the query selects it (\<open>%H\<close>, \<open>%h\<close>, \<open>%an\<close>,
  \<open>%ae\<close>, \<open>%ad\<close>, \<open>%s\<close>, \<open>%b\<close>), and the output of
  \<open>git log --pretty=format:... -n limit\<close> on a history given newest first: the seven
  fields of each of the first \<open>limit\<close> commits joined by \<open>|\<close>, one commit after the
  other, separated by a line break. The body \<open>%b\<close> of a commit is free text and may
  itself span several lines.
\<close>

record git_commit =
  c_hash :: string
  c_abbrev :: string
  c_author :: string
  c_email :: string
  c_date :: string
  c_subject :: string
  c_body :: string

definition pretty_format :: "git_commit \<Rightarrow> string" where
  "pretty_format c =
     str_join ''|'' [c_hash c, c_abbrev c, c_author c, c_email c, c_date c, c_subject c, c_body c]"

definition git_log_output :: "git_commit list \<Rightarrow> nat \<Rightarrow> string" where
  "git_log_output history limit = str_join ''\<newline>'' (map pretty_format (take limit history))"

text \<open>
  A commit whose seven fields hold neither \<open>|\<close> nor a line break, whose hash is not
  blank at its start and whose body does not end in white space; and the record that the
  query is expected to return for a commit.
\<close>

definition well_formed_commit :: "git_commit \<Rightarrow> bool" where
  "well_formed_commit c =
     (list_all (\<lambda>f. CHR ''|'' \<notin> set f \<and> CHR 0x0A \<notin> set f)
        [c_hash c, c_abbrev c, c_author c, c_email c, c_date c, c_subject c, c_body c]
      \<and> c_hash c \<noteq> [] \<and> \<not> is_space (hd (c_hash c))
      \<and> (c_body c = [] \<or> \<not> is_space (last (c_body c))))"

definition record_of :: "(string \<Rightarrow> string \<times> string) \<Rightarrow> git_commit \<Rightarrow> commit_record" where
  "record_of date_labels c =
     \<lparr> full_hash = c_hash c, short_hash = c_abbrev c, author_name = c_author c,
       author_email = c_email c, date = c_date c,
       formatted_date = fst (date_labels (c_date c)),
       relative_date = snd (date_labels (c_date c)),
       subject = c_subject c, body = c_body c \<rparr>"

section \<open>Concrete environments\<close>

text \<open>A clean dataset: the status query prints nothing.\<close>

definition clean_env :: env where
  "clean_env = \<lparr> respond = (\<lambda>h c. Completed 0 [] []), path_exists = (\<lambda>h p. True) \<rparr>"

text \<open>A dataset whose recursive save is refused while the flat save goes through.\<close>

definition flat_only_env :: env where
  "flat_only_env = \<lparr> respond = (\<lambda>h c.
       if fst c = [''datalad'', ''status''] then Completed 0 '' modified: data.csv (file)'' []
       else if take 3 (fst c) = [''datalad'', ''save'', ''-r''] then Completed 1 [] ''nested unit is dirty''
       else Completed 0 ''save(ok)'' []),
     path_exists = (\<lambda>h p. True) \<rparr>"

text \<open>A dataset with the modified nested dataset \<open>r4\<close> on which every write command fails.\<close>

definition stuck_env :: env where
  "stuck_env = \<lparr> respond = (\<lambda>h c.
       if fst c = [''datalad'', ''status''] then Completed 0 '' modified: r4 (dataset)'' []
       else Completed 1 [] ''failed''),
     path_exists = (\<lambda>h p. True) \<rparr>"

text \<open>The same with a nested dataset of another name, \<open>sub1\<close>.\<close>

definition stuck_nested_env :: env where
  "stuck_nested_env = \<lparr> respond = (\<lambda>h c.
       if fst c = [''datalad'', ''status''] then Completed 0 '' modified: sub1 (dataset)'' []
       else Completed 1 [] ''failed''),
     path_exists = (\<lambda>h p. True) \<rparr>"

text \<open>A repository in which the requested file is not part of the requested commit.\<close>

definition missing_file_env :: env where
  "missing_file_env = \<lparr> respond = (\<lambda>h c.
       if take 2 (fst c) = [''git'', ''show''] then Completed 128 [] ''fatal: path does not exist''
       else Completed 0 [] []),
     path_exists = (\<lambda>h p. True) \<rparr>"

text \<open>A DataLad dataset whose plain git commands succeed and whose \<open>datalad save\<close> fails.\<close>

definition save_fails_env :: env where
  "save_fails_env = \<lparr> respond = (\<lambda>h c.
       if take 2 (fst c) = [''datalad'', ''save''] then Completed 1 [] ''annex is locked''
       else if take 2 (fst c) = [''git'', ''status''] then Completed 0 ''M  results/a.csv'' []
       else Completed 0 [] []),
     path_exists = (\<lambda>h p. True) \<rparr>"

text \<open>A repository in which \<open>git add\<close> and \<open>git commit\<close> exit with status 1.\<close>

definition commit_fails_env :: env where
  "commit_fails_env = \<lparr> respond = (\<lambda>h c.
       if take 2 (fst c) = [''git'', ''add''] then Completed 1 [] ''index.lock exists''
       else if take 2 (fst c) = [''git'', ''commit''] then Completed 1 [] ''nothing added''
       else if take 2 (fst c) = [''git'', ''status''] then Completed 0 ''M  results/a.csv'' []
       else Completed 0 [] []),
     path_exists = (\<lambda>h p. True) \<rparr>"

text \<open>
  The dataset of the specification's scenario: a \<open>results\<close> directory with the tracked
  file \<open>a.csv\<close> and the untracked file \<open>b.csv\<close>, and no other stage directory.
\<close>

definition results_only_view :: dataset_view where
  "results_only_view = \<lparr> root_exists = True,
     root_entries = [Dir ''.git'' [], Dir ''.datalad'' [],
                     Dir ''results'' [File ''a.csv'' 10, File ''b.csv'' 20]],
     git_ls_files = (\<lambda>p. if p = ''results/a.csv'' then Completed 0 ''results/a.csv'' []
                         else Completed 1 [] ''error: pathspec did not match''),
     datalad_status = (\<lambda>s. Completed 0 ''untracked: results/b.csv (file)'' []) \<rparr>"

definition results_only_graph :: dataflow where
  "results_only_graph =
     \<lparr> nodes = [central_node ''/tmp/ds'' 1,
                stage_node 2 ''results'' ''results''
                  \<lparr> dt_color = ''#FFA07A'', dt_type = ''results'',
                    dt_description = ''Final results and outputs'' \<rparr> 2 1 1 0,
                placeholder_node 3 ''scripts''
                  \<lparr> dt_color = ''#4CAF50'', dt_type = ''scripts'',
                    dt_description = ''Analysis and processing scripts'' \<rparr>,
                placeholder_node 4 ''plots''
                  \<lparr> dt_color = ''#DDA0DD'', dt_type = ''plots'',
                    dt_description = ''Generated visualizations'' \<rparr>],
       edges = [contains_edge 1 2, contains_edge 1 3, contains_edge 1 4],
       total_stages = 4, total_connections = 3 \<rparr>"

text \<open>A \<open>raw_data\<close> directory with one untracked file and one deleted file.\<close>

definition deleted_and_untracked_view :: dataset_view where
  "deleted_and_untracked_view = \<lparr> root_exists = True,
     root_entries = [Dir ''raw_data'' [File ''new.csv'' 5]],
     git_ls_files = (\<lambda>p. Completed 1 [] ''error: pathspec did not match''),
     datalad_status = (\<lambda>s. Completed 0
        (''  deleted: raw_data/old.csv (file)'' @ ''\<newline>'' @ ''untracked: raw_data/new.csv (file)'') []) \<rparr>"

definition deleted_and_untracked_graph :: dataflow where
  "deleted_and_untracked_graph =
     \<lparr> nodes = [central_node ''/tmp/ds'' 1,
                stage_node 2 ''raw_data'' ''raw_data''
                  \<lparr> dt_color = ''#87CEEB'', dt_type = ''raw_data'',
                    dt_description = ''Raw data files'' \<rparr> 1 0 1 1,
                placeholder_node 3 ''scripts''
                  \<lparr> dt_color = ''#4CAF50'', dt_type = ''scripts'',
                    dt_description = ''Analysis and processing scripts'' \<rparr>,
                placeholder_node 4 ''results''
                  \<lparr> dt_color = ''#FFA07A'', dt_type = ''results'',
                    dt_description = ''Final results and outputs'' \<rparr>,
                placeholder_node 5 ''plots''
                  \<lparr> dt_color = ''#DDA0DD'', dt_type = ''plots'',
                    dt_description = ''Generated visualizations'' \<rparr>],
       edges = [contains_edge 1 2, contains_edge 1 3, contains_edge 1 4, contains_edge 1 5],
       total_stages = 5, total_connections = 4 \<rparr>"

text \<open>
  A history of two commits; the body of the newer one has a second line that is a row of a
  table. The repository answers the log query with what \<open>git log\<close> prints for it.
\<close>

definition table_history :: "git_commit list" where
  "table_history =
     [\<lparr> c_hash = ''1f3a9c0d2b4e6f8a1c3e5a7b9d0f2e4c6a8b0d1e'', c_abbrev = ''1f3a9c0'',
        c_author = ''Ada'', c_email = ''ada@example.org'', c_date = ''2025-03-02 10:00:00 +0000'',
        c_subject = ''Add results table'',
        c_body = ''Summary of the runs:'' @ ''\<newline>'' @ ''| run | n | mean | sd | p |'' \<rparr>,
      \<lparr> c_hash = ''7b2d4f6a8c0e1a3c5e7a9b1d3f5b7d9f1a3c5e7a'', c_abbrev = ''7b2d4f6'',
        c_author = ''Ada'', c_email = ''ada@example.org'', c_date = ''2025-03-01 09:00:00 +0000'',
        c_subject = ''Initial import'', c_body = [] \<rparr>]"

definition table_env :: env where
  "table_env = \<lparr> respond = (\<lambda>h c.
       if take 2 (fst c) = [''git'', ''log''] then
         (if last (fst c) = ''1'' then Completed 0 (git_log_output table_history 1) []
          else Completed 0 (git_log_output table_history 2) [])
       else Completed 0 [] []),
     path_exists = (\<lambda>h p. True) \<rparr>"

text \<open>A history of two commits with one-line fields, and a repository that prints its newest commit.\<close>

definition plain_history :: "git_commit list" where
  "plain_history =
     [\<lparr> c_hash = ''9e1c3a5b7d9f0a2c4e6a8b0d2f4a6c8e0b1d3f5a'', c_abbrev = ''9e1c3a5'',
        c_author = ''Ada'', c_email = ''ada@example.org'', c_date = ''2025-03-02 10:00:00 +0000'',
        c_subject = ''Add results'', c_body = [] \<rparr>,
      \<lparr> c_hash = ''7b2d4f6a8c0e1a3c5e7a9b1d3f5b7d9f1a3c5e7a'', c_abbrev = ''7b2d4f6'',
        c_author = ''Ada'', c_email = ''ada@example.org'', c_date = ''2025-03-01 09:00:00 +0000'',
        c_subject = ''Initial import'', c_body = [] \<rparr>]"

definition plain_env :: env where
  "plain_env = \<lparr> respond = (\<lambda>h c.
       if take 2 (fst c) = [''git'', ''log''] then Completed 0 (git_log_output plain_history 1) []
       else Completed 0 [] []),
     path_exists = (\<lambda>h p. True) \<rparr>"

section \<open>Properties of \<open>save_all_changes\<close>\<close>

text \<open>
  C1. On a dataset with nothing to persist (the status query exits with 0 and prints only
  white space) \<open>save_all_changes\<close> answers \<open>success: true\<close> with the message
  "No changes to save", and the status query is the only command it invokes: no save, add,
  commit or checkout.
\<close>

theorem commitAll_clean_is_noop:
  assumes "dataset_path \<noteq> []"
    and "respond e h ([''datalad'', ''status''], dataset_path) = Completed 0 out err"
    and "strip out = []"
  shows "save_all_changes e True dataset_path msg h =
           ((jsonify 200) \<lparr> success := Some True, message := Some ''No changes to save'',
              commit_message := Some msg \<rparr>,
            h @ [([''datalad'', ''status''], dataset_path)])
         \<and> filter is_write_command
             (drop (length h) (snd (save_all_changes e True dataset_path msg h))) = []"
  using assms by (simp add: save_all_changes_def subprocess_run_def is_write_command_def)

theorem commitAll_clean_is_noop_witness:
  "save_all_changes clean_env True ''/tmp/ds'' ''Save all changes'' [] =
           ((jsonify 200) \<lparr> success := Some True, message := Some ''No changes to save'',
              commit_message := Some ''Save all changes'' \<rparr>,
            [] @ [([''datalad'', ''status''], ''/tmp/ds'')])
         \<and> filter is_write_command
             (drop (length ([] :: call list))
                (snd (save_all_changes clean_env True ''/tmp/ds'' ''Save all changes'' []))) = []"
  by (rule commitAll_clean_is_noop [where out = "[]" and err = "[]"])
     (simp_all add: clean_env_def strip_def)

text \<open>
  C2. When the recursive save exits non-zero and the flat save that follows exits with 0,
  the answer is \<open>success: true\<close> and the attempt log has exactly two entries: the failure of
  the recursive save, then the success of the flat save.
\<close>

theorem commitAll_recursive_fails_flat_succeeds:
  assumes "dataset_path \<noteq> []"
    and "respond e h ([''datalad'', ''status''], dataset_path) = Completed 0 out err"
    and "strip out \<noteq> []"
    and "respond e (h @ [([''datalad'', ''status''], dataset_path)])
           ([''datalad'', ''save'', ''-r'', ''-m'', msg], dataset_path) = Completed rc_rec out_rec err_rec"
    and "rc_rec \<noteq> 0"
    and "respond e (h @ [([''datalad'', ''status''], dataset_path),
                         ([''datalad'', ''save'', ''-r'', ''-m'', msg], dataset_path)])
           ([''datalad'', ''save'', ''-m'', msg], dataset_path) = Completed 0 out_flat err_flat"
  shows "success (fst (save_all_changes e True dataset_path msg h)) = Some True
       \<and> save_attempts (fst (save_all_changes e True dataset_path msg h)) =
           Some [''Recursive save: FAILED - '' @ err_rec, ''Regular save: SUCCESS'']"
  using assms
  by (simp add: save_all_changes_def recursive_save_def regular_save_def run_checked_def
        subprocess_run_def all_saved_def jsonify_def)

theorem commitAll_recursive_fails_flat_succeeds_witness:
  "success (fst (save_all_changes flat_only_env True ''/tmp/ds'' ''m'' [])) = Some True
       \<and> save_attempts (fst (save_all_changes flat_only_env True ''/tmp/ds'' ''m'' [])) =
           Some [''Recursive save: FAILED - '' @ ''nested unit is dirty'', ''Regular save: SUCCESS'']"
  by (rule commitAll_recursive_fails_flat_succeeds
        [where out = "'' modified: data.csv (file)''" and err = "[]" and rc_rec = 1 and out_rec = "[]"
           and out_flat = "''save(ok)''" and err_flat = "[]"])
     (simp_all add: flat_only_env_def strip_def is_space_def)

text \<open>
  C3. The cascade of \<open>save_all_changes\<close> at a dataset whose nested dataset \<open>r4\<close> is
  modified and on which every write command fails: after the two saves for \<open>r4\<close> (from
  inside it, then its reference from the parent) the next command is \<open>git add r4\<close>. The
  flat save is issued once, before the nested datasets are visited, and is not retried. With
  a nested dataset of another name the cascade ends after the two failed saves for it, no
  command having succeeded, and answers that all changes have been saved.
\<close>

theorem commitAll_no_flat_retry:
  "snd (save_all_changes stuck_env True ''/tmp/ds'' ''m'' []) =
     [([''datalad'', ''status''], ''/tmp/ds''),
      ([''datalad'', ''save'', ''-r'', ''-m'', ''m''], ''/tmp/ds''),
      ([''datalad'', ''save'', ''-m'', ''m''], ''/tmp/ds''),
      ([''datalad'', ''save'', ''-m'', ''m''], ''/tmp/ds/r4''),
      ([''datalad'', ''save'', ''-m'', ''m'', ''r4''], ''/tmp/ds''),
      ([''git'', ''add'', ''r4''], ''/tmp/ds'')]
   \<and> save_attempts (fst (save_all_changes stuck_env True ''/tmp/ds'' ''m'' [])) =
       Some [''Recursive save: FAILED - failed'', ''Regular save: FAILED - failed'',
             ''Subdataset r4 save: FAILED'', ''Force git add/commit for r4: FAILED - failed'']
   \<and> snd (save_all_changes stuck_nested_env True ''/tmp/ds'' ''m'' []) =
     [([''datalad'', ''status''], ''/tmp/ds''),
      ([''datalad'', ''save'', ''-r'', ''-m'', ''m''], ''/tmp/ds''),
      ([''datalad'', ''save'', ''-m'', ''m''], ''/tmp/ds''),
      ([''datalad'', ''save'', ''-m'', ''m''], ''/tmp/ds/sub1''),
      ([''datalad'', ''save'', ''-m'', ''m'', ''sub1''], ''/tmp/ds'')]
   \<and> save_attempts (fst (save_all_changes stuck_nested_env True ''/tmp/ds'' ''m'' [])) =
       Some [''Recursive save: FAILED - failed'', ''Regular save: FAILED - failed'',
             ''Subdataset sub1 save: FAILED'']
   \<and> message (fst (save_all_changes stuck_nested_env True ''/tmp/ds'' ''m'' [])) =
       Some ''All changes have been saved to DataLad''"
  by code_simp

section \<open>Properties of \<open>restore_file_to_commit\<close>\<close>

text \<open>
  C4. When the file is not part of the commit (\<open>check_file_exists_in_commit\<close> answers
  \<open>False\<close> on an existing dataset path), the restoration fails with the
  \<open>GitOperationError\<close> "File ... does not exist in commit ..." (the specification's
  \<open>FileNotInRevision\<close>). The only command run is the read-only \<open>git show\<close>: no checkout,
  add, commit or save, so the working tree, the index and the history are as before, and
  nothing is printed.
\<close>

theorem restore_missing_file_fails_before_mutation:
  assumes "path_exists e h dataset_path"
    and "\<not> fst (check_file_exists_in_commit e dataset_path file_path commit_hash h)"
  shows "restore_file_to_commit e dataset_path file_path commit_hash given_message h =
           (Inl (GitOperationError (''File '' @ file_path @ '' does not exist in commit '' @ commit_hash)),
            h @ [([''git'', ''show'', commit_hash @ '':'' @ file_path], dataset_path)], [])
         \<and> filter is_write_command
             (drop (length h)
                (fst (snd (restore_file_to_commit e dataset_path file_path commit_hash given_message h)))) = []"
  using assms
  by (auto simp: restore_file_to_commit_def restore_plain_vcs_def check_file_exists_in_commit_def
        subprocess_run_def is_write_command_def split: proc.splits)

theorem restore_missing_file_fails_before_mutation_witness:
  "restore_file_to_commit missing_file_env ''/tmp/ds'' ''results/a.csv'' ''abc1234'' None [] =
           (Inl (GitOperationError (''File '' @ ''results/a.csv'' @ '' does not exist in commit '' @ ''abc1234'')),
            [] @ [([''git'', ''show'', ''abc1234'' @ '':'' @ ''results/a.csv''], ''/tmp/ds'')], [])
         \<and> filter is_write_command
             (drop (length ([] :: call list))
                (fst (snd (restore_file_to_commit missing_file_env ''/tmp/ds'' ''results/a.csv''
                             ''abc1234'' None [])))) = []"
  by (rule restore_missing_file_fails_before_mutation)
     (simp_all add: missing_file_env_def check_file_exists_in_commit_def subprocess_run_def)

lemma restore_plain_vcs_calls:
  assumes "restore_plain_vcs e dataset_path file_path commit_hash given_message h = (Inr u, h', log')"
  shows "([''git'', ''checkout'', commit_hash, ''--'', file_path], dataset_path) \<in> set h'
       \<and> ([''git'', ''add'', file_path], dataset_path) \<in> set h' \<and> take (length h) h' = h"
  using assms
  by (auto simp: restore_plain_vcs_def check_file_exists_in_commit_def stage_and_commit_def
        subprocess_run_def Let_def split: proc.splits if_splits bool.splits)

lemma datalad_save_step_log:
  "datalad_save_step e dataset_path msg h log = (h', log') \<Longrightarrow> set log \<subseteq> set log'"
  by (auto simp: datalad_save_step_def subprocess_run_def split: if_splits proc.splits)

text \<open>
  C5. On a dataset with a \<open>.datalad\<close> directory, when the plain-VCS part of the restoration
  went through (it issued the checkout and the add, and the commit where something was
  staged) and the final \<open>datalad save\<close> fails, by a non-zero exit or by an exception, the
  restoration still returns its success dictionary. The save is the last command issued, so
  nothing undoes the earlier steps, and the failure shows only as a printed warning.
\<close>

theorem restore_tolerates_datalad_failure:
  assumes "restore_plain_vcs e dataset_path file_path commit_hash given_message h = (Inr (), h_vcs, log_vcs)"
    and "path_exists e h_vcs (os_path_join dataset_path ''.datalad'')"
    and "respond e h_vcs ([''datalad'', ''save'', ''-m'',
            restore_commit_msg given_message file_path commit_hash], dataset_path) = p"
    and "p = Raised x \<or> (p = Completed rc out err \<and> rc \<noteq> 0)"
  shows "restore_file_to_commit e dataset_path file_path commit_hash given_message h =
           (Inr (restored file_path commit_hash),
            h_vcs @ [([''datalad'', ''save'', ''-m'',
                    restore_commit_msg given_message file_path commit_hash], dataset_path)],
            log_vcs @ [''Saving to DataLad with message: ''
                      @ restore_commit_msg given_message file_path commit_hash,
                    (case p of Raised x \<Rightarrow> ''Warning: datalad save failed with exception: '' @ x
                     | Completed rc out err \<Rightarrow> ''Warning: datalad save failed: '' @ err)])
         \<and> rr_success (restored file_path commit_hash)
         \<and> ([''git'', ''checkout'', commit_hash, ''--'', file_path], dataset_path) \<in> set h_vcs
         \<and> ([''git'', ''add'', file_path], dataset_path) \<in> set h_vcs"
  using assms restore_plain_vcs_calls[OF assms(1)]
  by (auto simp: restore_file_to_commit_def datalad_save_step_def subprocess_run_def restored_def)

theorem restore_tolerates_datalad_failure_witness:
  "restore_file_to_commit save_fails_env ''/tmp/ds'' ''results/a.csv'' ''abc1234'' None [] =
     (Inr (restored ''results/a.csv'' ''abc1234''),
      [([''git'', ''show'', ''abc1234:results/a.csv''], ''/tmp/ds''),
       ([''git'', ''checkout'', ''abc1234'', ''--'', ''results/a.csv''], ''/tmp/ds''),
       ([''git'', ''add'', ''results/a.csv''], ''/tmp/ds''),
       ([''git'', ''status'', ''--porcelain''], ''/tmp/ds''),
       ([''git'', ''commit'', ''-m'', ''Restore results/a.csv from commit abc1234''], ''/tmp/ds''),
       ([''datalad'', ''save'', ''-m'', ''Restore results/a.csv from commit abc1234''], ''/tmp/ds'')],
      [''Attempting to restore results/a.csv from commit abc1234'',
       ''Adding results/a.csv to git'',
       ''Git status before commit: M  results/a.csv'',
       ''Committing restoration with message: Restore results/a.csv from commit abc1234'',
       ''Saving to DataLad with message: Restore results/a.csv from commit abc1234'',
       ''Warning: datalad save failed: annex is locked''])
   \<and> rr_success (restored ''results/a.csv'' ''abc1234'')"
proof -
  let ?h = "[([''git'', ''show'', ''abc1234:results/a.csv''], ''/tmp/ds''),
       ([''git'', ''checkout'', ''abc1234'', ''--'', ''results/a.csv''], ''/tmp/ds''),
       ([''git'', ''add'', ''results/a.csv''], ''/tmp/ds''),
       ([''git'', ''status'', ''--porcelain''], ''/tmp/ds''),
       ([''git'', ''commit'', ''-m'', ''Restore results/a.csv from commit abc1234''], ''/tmp/ds'')]"
  let ?log = "[''Attempting to restore results/a.csv from commit abc1234'',
       ''Adding results/a.csv to git'',
       ''Git status before commit: M  results/a.csv'',
       ''Committing restoration with message: Restore results/a.csv from commit abc1234'']"
  have vcs: "restore_plain_vcs save_fails_env ''/tmp/ds'' ''results/a.csv'' ''abc1234'' None []
               = (Inr (), ?h, ?log)"
    by (simp add: restore_plain_vcs_def check_file_exists_in_commit_def stage_and_commit_def
          subprocess_run_def save_fails_env_def restore_commit_msg_def os_path_join_def
          strip_def is_space_def)
  have tracked: "path_exists save_fails_env ?h (os_path_join ''/tmp/ds'' ''.datalad'')"
    by (simp add: save_fails_env_def)
  have answer: "respond save_fails_env ?h ([''datalad'', ''save'', ''-m'',
            restore_commit_msg None ''results/a.csv'' ''abc1234''], ''/tmp/ds'')
          = Completed 1 [] ''annex is locked''"
    by (simp add: save_fails_env_def)
  have failed: "Completed 1 [] ''annex is locked'' = Raised []
      \<or> (Completed 1 [] ''annex is locked'' = Completed 1 [] ''annex is locked'' \<and> (1::int) \<noteq> 0)"
    by simp
  from restore_tolerates_datalad_failure [OF vcs tracked answer failed]
  show ?thesis by (simp add: restore_commit_msg_def)
qed

text \<open>
  C10. Once the dataset exists, the file is part of the commit, the checkout exits with 0
  and the file is on disk, the restoration returns its success dictionary whatever the exit
  codes of \<open>git add\<close> and \<open>git commit\<close> are: a non-zero exit of either only prints a
  warning. A success result therefore does not say that a commit was made.
\<close>

theorem restore_succeeds_despite_add_commit_failure:
  fixes e :: env and h :: "call list"
  defines "c_show \<equiv> \<lambda>dataset_path file_path commit_hash.
             ([''git'', ''show'', commit_hash @ '':'' @ file_path], dataset_path :: string)"
    and "c_checkout \<equiv> \<lambda>dataset_path file_path commit_hash.
             ([''git'', ''checkout'', commit_hash, ''--'', file_path], dataset_path :: string)"
    and "c_add \<equiv> \<lambda>dataset_path file_path. ([''git'', ''add'', file_path], dataset_path :: string)"
    and "c_status \<equiv> \<lambda>dataset_path. ([''git'', ''status'', ''--porcelain''], dataset_path :: string)"
  assumes "path_exists e h dataset_path"
    and "respond e h (c_show dataset_path file_path commit_hash) = Completed 0 out_show err_show"
    and "respond e (h @ [c_show dataset_path file_path commit_hash])
           (c_checkout dataset_path file_path commit_hash) = Completed 0 out_co err_co"
    and "path_exists e (h @ [c_show dataset_path file_path commit_hash,
                            c_checkout dataset_path file_path commit_hash])
           (os_path_join dataset_path file_path)"
    and "respond e (h @ [c_show dataset_path file_path commit_hash,
                         c_checkout dataset_path file_path commit_hash])
           (c_add dataset_path file_path) = Completed rc_add out_add err_add"
    and "respond e (h @ [c_show dataset_path file_path commit_hash,
                         c_checkout dataset_path file_path commit_hash,
                         c_add dataset_path file_path])
           (c_status dataset_path) = Completed rc_status status_out err_status"
    and "respond e (h @ [c_show dataset_path file_path commit_hash,
                         c_checkout dataset_path file_path commit_hash,
                         c_add dataset_path file_path, c_status dataset_path])
           ([''git'', ''commit'', ''-m'', restore_commit_msg given_message file_path commit_hash],
            dataset_path) = Completed rc_commit out_commit err_commit"
  shows "fst (restore_file_to_commit e dataset_path file_path commit_hash given_message h)
           = Inr (restored file_path commit_hash)
       \<and> rr_success (restored file_path commit_hash)
       \<and> (rc_add \<noteq> 0 \<longrightarrow> ''Warning: git add failed: '' @ err_add
             \<in> set (snd (snd (restore_file_to_commit e dataset_path file_path commit_hash given_message h))))
       \<and> (strip status_out \<noteq> [] \<and> rc_commit \<noteq> 0 \<longrightarrow> ''Warning: git commit failed: '' @ err_commit
             \<in> set (snd (snd (restore_file_to_commit e dataset_path file_path commit_hash given_message h))))"
proof -
  let ?msg = "restore_commit_msg given_message file_path commit_hash"
  let ?log1 = "[''Attempting to restore '' @ file_path @ '' from commit '' @ commit_hash]"
  let ?h2 = "h @ [c_show dataset_path file_path commit_hash, c_checkout dataset_path file_path commit_hash]"
  let ?h4 = "?h2 @ [c_add dataset_path file_path, c_status dataset_path]"
  from assms(9-11) have sc: "stage_and_commit e dataset_path file_path ?msg ?h2 ?log1 =
      (Inr (), if strip status_out = [] then ?h4
               else ?h4 @ [([''git'', ''commit'', ''-m'', ?msg], dataset_path)],
       ?log1 @ [''Adding '' @ file_path @ '' to git'']
         @ (if rc_add \<noteq> 0 then [''Warning: git add failed: '' @ err_add] else [])
         @ [''Git status before commit: '' @ status_out,
            ''Committing restoration with message: '' @ ?msg]
         @ (if strip status_out = [] then [''No staged changes to commit, skipping commit step'']
            else if rc_commit \<noteq> 0 then [''Warning: git commit failed: '' @ err_commit] else []))"
    (is "_ = (_, ?h5, ?log5)")
    by (simp add: stage_and_commit_def subprocess_run_def Let_def c_add_def c_status_def)
  have pv: "restore_plain_vcs e dataset_path file_path commit_hash given_message h = (Inr (), ?h5, ?log5)"
    using assms(5-8) sc
    by (simp add: restore_plain_vcs_def check_file_exists_in_commit_def subprocess_run_def
          c_show_def c_checkout_def)
  obtain h6 log6 where ds: "datalad_save_step e dataset_path ?msg ?h5 ?log5 = (h6, log6)"
    by (meson surj_pair)
  from datalad_save_step_log[OF ds] have sub: "set ?log5 \<subseteq> set log6" .
  have "restore_file_to_commit e dataset_path file_path commit_hash given_message h
          = (Inr (restored file_path commit_hash), h6, log6)"
    using pv ds by (simp add: restore_file_to_commit_def)
  moreover have "rc_add \<noteq> 0 \<longrightarrow> ''Warning: git add failed: '' @ err_add \<in> set ?log5" by simp
  moreover have "strip status_out \<noteq> [] \<and> rc_commit \<noteq> 0
      \<longrightarrow> ''Warning: git commit failed: '' @ err_commit \<in> set ?log5" by simp
  ultimately show ?thesis using sub by (auto simp: restored_def)
qed

theorem restore_succeeds_despite_add_commit_failure_witness:
  "fst (restore_file_to_commit commit_fails_env ''/tmp/ds'' ''results/a.csv'' ''abc1234'' None [])
     = Inr (restored ''results/a.csv'' ''abc1234'')
   \<and> rr_success (restored ''results/a.csv'' ''abc1234'')
   \<and> ''Warning: git add failed: index.lock exists''
        \<in> set (snd (snd (restore_file_to_commit commit_fails_env ''/tmp/ds'' ''results/a.csv''
                            ''abc1234'' None [])))
   \<and> ''Warning: git commit failed: nothing added''
        \<in> set (snd (snd (restore_file_to_commit commit_fails_env ''/tmp/ds'' ''results/a.csv''
                            ''abc1234'' None [])))"
proof -
  note inst = restore_succeeds_despite_add_commit_failure
    [where e = commit_fails_env and h = "[]" and dataset_path = "''/tmp/ds''"
       and file_path = "''results/a.csv''" and commit_hash = "''abc1234''" and given_message = None
       and out_show = "[]" and err_show = "[]" and out_co = "[]" and err_co = "[]"
       and rc_add = 1 and out_add = "[]" and err_add = "''index.lock exists''"
       and rc_status = 0 and status_out = "''M  results/a.csv''" and err_status = "[]"
       and rc_commit = 1 and out_commit = "[]" and err_commit = "''nothing added''"]
  have nonblank: "strip ''M  results/a.csv'' \<noteq> []"
    by (simp add: strip_def is_space_def)
  have "fst (restore_file_to_commit commit_fails_env ''/tmp/ds'' ''results/a.csv'' ''abc1234'' None [])
     = Inr (restored ''results/a.csv'' ''abc1234'')
   \<and> rr_success (restored ''results/a.csv'' ''abc1234'')
   \<and> ((1::int) \<noteq> 0 \<longrightarrow> ''Warning: git add failed: '' @ ''index.lock exists''
        \<in> set (snd (snd (restore_file_to_commit commit_fails_env ''/tmp/ds'' ''results/a.csv''
                            ''abc1234'' None []))))
   \<and> (strip ''M  results/a.csv'' \<noteq> [] \<and> (1::int) \<noteq> 0 \<longrightarrow>
        ''Warning: git commit failed: '' @ ''nothing added''
        \<in> set (snd (snd (restore_file_to_commit commit_fails_env ''/tmp/ds'' ''results/a.csv''
                            ''abc1234'' None []))))"
    by (rule inst) (simp_all add: commit_fails_env_def)
  with nonblank show ?thesis by simp
qed

section \<open>Properties of \<open>create_dataflow_from_dataset\<close>\<close>

subsection \<open>The loops keep the invariant\<close>

lemma update_values:
  "set (map snd (AList.update k v al)) \<subseteq> insert v (set (map snd al))"
  by (induction al) auto

lemma update_values_distinct:
  "distinct (map snd al) \<Longrightarrow> v \<notin> set (map snd al) \<Longrightarrow> distinct (map snd (AList.update k v al))"
proof (induction al)
  case Nil
  then show ?case by simp
next
  case (Cons a al)
  have "set (map snd (AList.update k v al)) \<subseteq> insert v (set (map snd al))"
    by (rule update_values)
  with Cons show ?case by (cases a) auto
qed

lemma wf_state_step:
  assumes "wf_state ns dn nid" and "\<not> is_central n" and "node_id n = nid"
  shows "wf_state (ns @ [n]) (AList.update k nid dn) (nid + 1)"
proof -
  from assms(1) have ids: "map node_id ns = [1..<nid]" and ge: "2 \<le> nid"
    and root: "is_central (hd ns)" and others: "\<forall>n \<in> set (tl ns). \<not> is_central n"
    and dist: "distinct (map snd dn)" and rng: "set (map snd dn) \<subseteq> {2..<nid}"
    by (simp_all add: wf_state_def)
  from arg_cong[OF ids, of length] ge have ne: "ns \<noteq> []" by auto
  have fresh: "nid \<notin> set (map snd dn)" using rng by auto
  have "map node_id (ns @ [n]) = [1..<nid + 1]" using ids ge assms(3) by simp
  moreover have "is_central (hd (ns @ [n]))" using ne root by simp
  moreover have "\<forall>m \<in> set (tl (ns @ [n])). \<not> is_central m" using ne others assms(2) by auto
  moreover have "distinct (map snd (AList.update k nid dn))"
    by (rule update_values_distinct[OF dist fresh])
  moreover have "set (map snd (AList.update k nid dn)) \<subseteq> {2..<nid + 1}"
  proof -
    have "insert nid (set (map snd dn)) \<subseteq> {2..<nid + 1}" using rng ge by fastforce
    with update_values[of k nid dn] show ?thesis by (rule subset_trans)
  qed
  ultimately show ?thesis using ge by (simp add: wf_state_def)
qed

lemma add_directory_nodes_step:
  assumes "add_directory_nodes v (item # items) (ns, dn, nid) = Inr r"
  obtains (skip) "add_directory_nodes v items (ns, dn, nid) = Inr r"
      "\<And>name p ch. item = DirItem name p ch \<Longrightarrow> map_of directory_types name = None"
    | (add) name p ch dt t u d where "item = DirItem name p ch"
      "map_of directory_types name = Some dt"
      "(get_stage_files v name = None \<and> t = 0 \<and> u = 0 \<and> d = 0)
         \<or> (\<exists>fc. get_stage_files v name = Some (StageCounts fc t u d))"
      "add_directory_nodes v items
         (ns @ [stage_node nid name p dt (length (filter is_file_item ch)) t u d],
          AList.update name nid dn, nid + 1) = Inr r"
proof (cases item)
  case (FileItem n p s)
  with assms show ?thesis by (intro skip) simp_all
next
  case (DirItem name p ch)
  show ?thesis
  proof (cases "map_of directory_types name")
    case None
    with assms DirItem show ?thesis by (intro skip) simp_all
  next
    case (Some dt)
    show ?thesis
    proof (cases "get_stage_files v name")
      case None
      with assms DirItem Some show ?thesis by (intro add[of name p ch dt 0 0 0]) simp_all
    next
      case sd: (Some sd)
      show ?thesis
      proof (cases sd)
        case StageAbsent
        with assms DirItem Some sd show ?thesis by simp
      next
        case (StageCounts fc t u d)
        with assms DirItem Some sd show ?thesis by (intro add[of name p ch dt t u d]) simp_all
      qed
    qed
  qed
qed

lemma add_directory_nodes_wf:
  "add_directory_nodes v items (ns, dn, nid) = Inr (ns', dn', nid') \<Longrightarrow> wf_state ns dn nid
     \<Longrightarrow> wf_state ns' dn' nid'"
proof (induction items arbitrary: ns dn nid)
  case Nil
  then show ?case by simp
next
  case (Cons item items)
  from Cons.prems(1) show ?case
  proof (cases rule: add_directory_nodes_step)
    case skip
    with Cons show ?thesis by blast
  next
    case (add name p ch dt t u d)
    have "wf_state (ns @ [stage_node nid name p dt (length (filter is_file_item ch)) t u d])
            (AList.update name nid dn) (nid + 1)"
      by (rule wf_state_step[OF Cons.prems(2)]) (simp_all add: stage_node_def)
    from Cons.IH[OF add(4) this] show ?thesis .
  qed
qed

lemma add_directory_nodes_grows:
  "add_directory_nodes v items (ns, dn, nid) = Inr (ns', dn', nid') \<Longrightarrow> set ns \<subseteq> set ns'"
proof (induction items arbitrary: ns dn nid)
  case Nil
  then show ?case by simp
next
  case (Cons item items)
  from Cons.prems(1) show ?case
  proof (cases rule: add_directory_nodes_step)
    case skip
    with Cons show ?thesis by blast
  next
    case (add name p ch dt t u d)
    from Cons.IH[OF add(4)] show ?thesis by simp
  qed
qed

lemma add_directory_nodes_keys:
  "add_directory_nodes v items (ns, dn, nid) = Inr (ns', dn', nid') \<Longrightarrow> map_of dn' s \<noteq> None
     \<Longrightarrow> map_of dn s \<noteq> None \<or> (\<exists>p ch. DirItem s p ch \<in> set items)"
proof (induction items arbitrary: ns dn nid)
  case Nil
  then show ?case by simp
next
  case (Cons item items)
  from Cons.prems(1) show ?case
  proof (cases rule: add_directory_nodes_step)
    case skip
    from Cons.IH[OF skip(1) Cons.prems(2)] show ?thesis by auto
  next
    case (add name p ch dt t u d)
    from Cons.IH[OF add(4) Cons.prems(2)] add(1) show ?thesis
      by (auto simp: update_conv' split: if_splits)
  qed
qed

lemma add_directory_nodes_colored:
  "add_directory_nodes v items (ns, dn, nid) = Inr (ns', dn', nid')
     \<Longrightarrow> DirItem name p ch \<in> set items \<Longrightarrow> map_of directory_types name = Some dt
     \<Longrightarrow> get_stage_files v name = Some (StageCounts fc t u d)
     \<Longrightarrow> \<exists>n \<in> set ns'. path n = p \<and> node_type n = dt_type dt \<and> tracked_files n = Some t
           \<and> untracked_files n = Some u \<and> deleted_files n = Some d
           \<and> color n = status_color (dt_color dt) d u"
proof (induction items arbitrary: ns dn nid)
  case Nil
  then show ?case by simp
next
  case (Cons item items)
  from Cons.prems(1) show ?case
  proof (cases rule: add_directory_nodes_step)
    case skip
    with Cons.prems have "DirItem name p ch \<in> set items" by auto
    from Cons.IH[OF skip(1) this Cons.prems(3,4)] show ?thesis .
  next
    case (add name' p' ch' dt' t' u' d')
    show ?thesis
    proof (cases "item = DirItem name p ch")
      case True
      with add Cons.prems(3,4) have eq: "name' = name" "p' = p" "ch' = ch" "dt' = dt" "t' = t" "u' = u" "d' = d"
        by auto
      let ?n = "stage_node nid name p dt (length (filter is_file_item ch)) t u d"
      from add_directory_nodes_grows[OF add(4)] eq have "?n \<in> set ns'" by auto
      moreover have "path ?n = p \<and> node_type ?n = dt_type dt \<and> tracked_files ?n = Some t
           \<and> untracked_files ?n = Some u \<and> deleted_files ?n = Some d
           \<and> color ?n = status_color (dt_color dt) d u" by (simp add: stage_node_def)
      ultimately show ?thesis by blast
    next
      case False
      with Cons.prems have "DirItem name p ch \<in> set items" by auto
      from Cons.IH[OF add(4) this Cons.prems(3,4)] show ?thesis .
    qed
  qed
qed

lemma add_missing_stages_wf:
  "add_missing_stages stages (ns, dn, nid) = (ns', dn', nid') \<Longrightarrow> wf_state ns dn nid
     \<Longrightarrow> wf_state ns' dn' nid'"
proof (induction stages arbitrary: ns dn nid)
  case Nil
  then show ?case by simp
next
  case (Cons stage stages)
  obtain stage_name stage_info where st: "stage = (stage_name, stage_info)" by (cases stage)
  show ?case
  proof (cases "map_of dn stage_name = None")
    case True
    let ?n = "placeholder_node nid stage_name stage_info"
    from Cons.prems(1) st True
    have run: "add_missing_stages stages (ns @ [?n], AList.update stage_name nid dn, nid + 1)
                 = (ns', dn', nid')" by simp
    have "wf_state (ns @ [?n]) (AList.update stage_name nid dn) (nid + 1)"
      by (rule wf_state_step[OF Cons.prems(2)]) (simp_all add: placeholder_node_def)
    from Cons.IH[OF run this] show ?thesis .
  next
    case False
    with Cons st show ?thesis by simp
  qed
qed

lemma add_missing_stages_grows:
  "add_missing_stages stages (ns, dn, nid) = (ns', dn', nid') \<Longrightarrow> set ns \<subseteq> set ns'"
proof (induction stages arbitrary: ns dn nid)
  case Nil
  then show ?case by simp
next
  case (Cons stage stages)
  obtain stage_name stage_info where st: "stage = (stage_name, stage_info)" by (cases stage)
  show ?case
  proof (cases "map_of dn stage_name = None")
    case True
    with Cons.prems st
    have "add_missing_stages stages (ns @ [placeholder_node nid stage_name stage_info],
             AList.update stage_name nid dn, nid + 1) = (ns', dn', nid')" by simp
    from Cons.IH[OF this] show ?thesis by simp
  next
    case False
    with Cons st show ?thesis by simp
  qed
qed

lemma add_missing_stages_keeps:
  "add_missing_stages stages (ns, dn, nid) = (ns', dn', nid') \<Longrightarrow> map_of dn s = Some k
     \<Longrightarrow> map_of dn' s = Some k"
proof (induction stages arbitrary: ns dn nid)
  case Nil
  then show ?case by simp
next
  case (Cons stage stages)
  obtain stage_name stage_info where st: "stage = (stage_name, stage_info)" by (cases stage)
  show ?case
  proof (cases "map_of dn stage_name = None")
    case True
    with Cons.prems st
    have run: "add_missing_stages stages (ns @ [placeholder_node nid stage_name stage_info],
             AList.update stage_name nid dn, nid + 1) = (ns', dn', nid')" by simp
    from True Cons.prems(2) have "stage_name \<noteq> s" by auto
    then have "map_of (AList.update stage_name nid dn) s = Some k"
      using Cons.prems(2) by (simp add: update_conv')
    from Cons.IH[OF run this] show ?thesis .
  next
    case False
    with Cons st show ?thesis by simp
  qed
qed

lemma add_missing_stages_placeholder:
  "add_missing_stages stages (ns, dn, nid) = (ns', dn', nid') \<Longrightarrow> (s, info) \<in> set stages
     \<Longrightarrow> distinct (map fst stages) \<Longrightarrow> map_of dn s = None
     \<Longrightarrow> \<exists>k. placeholder_node k s info \<in> set ns' \<and> map_of dn' s = Some k"
proof (induction stages arbitrary: ns dn nid)
  case Nil
  then show ?case by simp
next
  case (Cons stage stages)
  obtain stage_name stage_info where st: "stage = (stage_name, stage_info)" by (cases stage)
  show ?case
  proof (cases "stage_name = s")
    case True
    with Cons.prems(2,3) st have info: "stage_info = info" by (auto simp: image_iff)
    from Cons.prems(1,4) st True
    have run: "add_missing_stages stages (ns @ [placeholder_node nid s stage_info],
             AList.update s nid dn, nid + 1) = (ns', dn', nid')" by simp
    have "map_of (AList.update s nid dn) s = Some nid" by (simp add: update_conv')
    from add_missing_stages_keeps[OF run this] add_missing_stages_grows[OF run] info
    show ?thesis by auto
  next
    case False
    with Cons.prems(2) st have mem: "(s, info) \<in> set stages" by auto
    from Cons.prems(3) have dist: "distinct (map fst stages)" by simp
    show ?thesis
    proof (cases "map_of dn stage_name = None")
      case True
      with Cons.prems(1) st
      have run: "add_missing_stages stages (ns @ [placeholder_node nid stage_name stage_info],
               AList.update stage_name nid dn, nid + 1) = (ns', dn', nid')" by simp
      have "map_of (AList.update stage_name nid dn) s = None"
        using False Cons.prems(4) by (simp add: update_conv')
      from Cons.IH[OF run mem dist this] show ?thesis .
    next
      case present: False
      with Cons.prems(1) st have run: "add_missing_stages stages (ns, dn, nid) = (ns', dn', nid')"
        by simp
      from Cons.IH[OF run mem dist Cons.prems(4)] show ?thesis .
    qed
  qed
qed

lemma add_missing_stages_present:
  "add_missing_stages stages (ns, dn, nid) = (ns', dn', nid') \<Longrightarrow> (s, info) \<in> set stages
     \<Longrightarrow> map_of dn' s \<noteq> None"
proof (induction stages arbitrary: ns dn nid)
  case Nil
  then show ?case by simp
next
  case (Cons stage stages)
  obtain stage_name stage_info where st: "stage = (stage_name, stage_info)" by (cases stage)
  show ?case
  proof (cases "map_of dn stage_name = None")
    case True
    with Cons.prems(1) st
    have run: "add_missing_stages stages (ns @ [placeholder_node nid stage_name stage_info],
             AList.update stage_name nid dn, nid + 1) = (ns', dn', nid')" by simp
    show ?thesis
    proof (cases "stage_name = s")
      case same: True
      have "map_of (AList.update s nid dn) s = Some nid" by (simp add: update_conv')
      from add_missing_stages_keeps[OF run[unfolded same] this] show ?thesis by simp
    next
      case False
      with Cons.prems(2) st have "(s, info) \<in> set stages" by auto
      from Cons.IH[OF run this] show ?thesis .
    qed
  next
    case False
    with Cons.prems(1) st have run: "add_missing_stages stages (ns, dn, nid) = (ns', dn', nid')"
      by simp
    show ?thesis
    proof (cases "stage_name = s")
      case True
      with False obtain k where "map_of dn s = Some k" by auto
      from add_missing_stages_keeps[OF run this] show ?thesis by simp
    next
      case diff: False
      with Cons.prems(2) st have "(s, info) \<in> set stages" by auto
      from Cons.IH[OF run this] show ?thesis .
    qed
  qed
qed

lemma build_tree_dirs:
  "DirItem s p ch \<in> set (build_tree rel entries) \<Longrightarrow> \<exists>sub. Dir s sub \<in> set entries"
  by (induction rel entries rule: build_tree.induct) (auto split: if_splits)

subsection \<open>The graphs of the two example datasets\<close>

lemma results_only_stage:
  "get_stage_files results_only_view ''results'' = Some (StageCounts 2 1 1 0)"
  by code_simp

lemma results_only_dataflow:
  "create_dataflow_from_dataset results_only_view ''/tmp/ds'' = Inr results_only_graph"
  by code_simp

lemma deleted_and_untracked_stage:
  "get_stage_files deleted_and_untracked_view ''raw_data'' = Some (StageCounts 1 0 1 1)"
  by code_simp

subsection \<open>The shape of a successful run\<close>

lemma create_dataflow_run:
  assumes "create_dataflow_from_dataset v dataset_path = Inr g"
  obtains ns1 dn1 nid1 ns dn nid where
    "add_directory_nodes v (build_tree [] (root_entries v)) ([central_node dataset_path 1], [], 2)
       = Inr (ns1, dn1, nid1)"
    "add_missing_stages missing_stages (ns1, dn1, nid1) = (ns, dn, nid)"
    "wf_state ns dn nid"
    "g = \<lparr> nodes = ns, edges = map (\<lambda>(dir_name, dir_node_id). contains_edge 1 dir_node_id) dn,
           total_stages = length ns, total_connections = length dn \<rparr>"
proof -
  from assms have ex: "root_exists v"
    by (auto simp: create_dataflow_from_dataset_def split: if_splits)
  from assms ex obtain st where
    l1: "add_directory_nodes v (build_tree [] (root_entries v)) ([central_node dataset_path 1], [], 2) = Inr st"
    by (auto simp: create_dataflow_from_dataset_def get_file_tree_def split: sum.splits)
  obtain ns1 dn1 nid1 where st: "st = (ns1, dn1, nid1)" by (cases st)
  obtain ns dn nid where l2: "add_missing_stages missing_stages (ns1, dn1, nid1) = (ns, dn, nid)"
    by (cases "add_missing_stages missing_stages (ns1, dn1, nid1)")
  have "wf_state [central_node dataset_path 1] [] 2"
    by (simp add: wf_state_def central_node_def numeral_2_eq_2)
  from add_directory_nodes_wf[OF l1[unfolded st] this] have "wf_state ns1 dn1 nid1" .
  from add_missing_stages_wf[OF l2 this] have wf: "wf_state ns dn nid" .
  have "(''plots'', \<lparr> dt_color = ''#DDA0DD'', dt_type = ''plots'',
                   dt_description = ''Generated visualizations'' \<rparr>) \<in> set missing_stages"
    by (simp add: missing_stages_def)
  from add_missing_stages_present[OF l2 this] obtain k where "map_of dn ''plots'' = Some k" by auto
  then have "k \<in> set (map snd dn)" by (force dest: map_of_SomeD)
  with wf have "2 < nid" by (auto simp: wf_state_def)
  moreover have "length ns = nid - 1"
  proof -
    from wf have "map node_id ns = [1..<nid]" by (simp add: wf_state_def)
    from arg_cong[OF this, of length] show ?thesis by simp
  qed
  ultimately have len: "length ns \<noteq> 1" by simp
  from assms ex l1 st l2 len
  have "g = \<lparr> nodes = ns, edges = map (\<lambda>(dir_name, dir_node_id). contains_edge 1 dir_node_id) dn,
           total_stages = length ns, total_connections = length dn \<rparr>"
    by (simp add: create_dataflow_from_dataset_def get_file_tree_def)
  with l1 st l2 wf show ?thesis by (intro that) auto
qed

text \<open>
  C8. Every graph that \<open>create_dataflow_from_dataset\<close> returns is a star: exactly one
  node is central and it comes first; the node ids are \<open>1, 2, ...\<close> in list order, so
  they are unique and the root has id 1; every edge starts at the root and ends at a
  non-central node of the graph; no two edges end at the same node.
\<close>

theorem synthesize_star_invariant:
  assumes "create_dataflow_from_dataset v dataset_path = Inr g"
  shows "length (filter is_central (nodes g)) = 1
       \<and> is_central (hd (nodes g))
       \<and> map node_id (nodes g) = [1..<Suc (length (nodes g))]
       \<and> (\<forall>e \<in> set (edges g). edge_from e = node_id (hd (nodes g))
              \<and> (\<exists>n \<in> set (nodes g). node_id n = edge_to e \<and> \<not> is_central n))
       \<and> distinct (map edge_to (edges g))"
proof -
  from assms obtain ns1 dn1 nid1 ns dn nid where
    "add_directory_nodes v (build_tree [] (root_entries v)) ([central_node dataset_path 1], [], 2)
       = Inr (ns1, dn1, nid1)"
    and "add_missing_stages missing_stages (ns1, dn1, nid1) = (ns, dn, nid)"
    and wf: "wf_state ns dn nid"
    and g: "g = \<lparr> nodes = ns, edges = map (\<lambda>(dir_name, dir_node_id). contains_edge 1 dir_node_id) dn,
           total_stages = length ns, total_connections = length dn \<rparr>"
    by (rule create_dataflow_run)
  from wf have ids: "map node_id ns = [1..<nid]" and ge: "2 \<le> nid"
    and root: "is_central (hd ns)" and others: "\<forall>n \<in> set (tl ns). \<not> is_central n"
    and dist: "distinct (map snd dn)" and rng: "set (map snd dn) \<subseteq> {2..<nid}"
    by (simp_all add: wf_state_def)
  from arg_cong[OF ids, of length] have len: "length ns = nid - 1" by simp
  with ge have ne: "ns \<noteq> []" by auto
  then have split: "ns = hd ns # tl ns" by simp
  have "filter is_central ns = [hd ns]"
    using root others by (subst split) (simp add: filter_empty_conv)
  then have one: "length (filter is_central ns) = 1" by simp
  have seq: "map node_id ns = [1..<Suc (length ns)]" using ids len ge by simp
  have hd1: "node_id (hd ns) = 1"
    using arg_cong[OF ids, of hd] ne ge by (simp add: hd_map upt_conv_Cons)
  have star: "\<forall>e \<in> set (map (\<lambda>(dir_name, dir_node_id). contains_edge 1 dir_node_id) dn).
                edge_from e = node_id (hd ns) \<and> (\<exists>n \<in> set ns. node_id n = edge_to e \<and> \<not> is_central n)"
  proof
    fix e assume "e \<in> set (map (\<lambda>(dir_name, dir_node_id). contains_edge 1 dir_node_id) dn)"
    then obtain name i where mem: "(name, i) \<in> set dn" and e: "e = contains_edge 1 i" by auto
    from mem rng have i: "2 \<le> i" "i < nid" by force+
    then have "i \<in> set (map node_id ns)" by (simp add: ids)
    then obtain n where n: "n \<in> set ns" "node_id n = i" by auto
    with hd1 i have "n \<noteq> hd ns" by auto
    with n split have "n \<in> set (tl ns)" by (metis set_ConsD)
    with others have "\<not> is_central n" by blast
    with n e hd1 show "edge_from e = node_id (hd ns)
        \<and> (\<exists>n \<in> set ns. node_id n = edge_to e \<and> \<not> is_central n)"
      by (auto simp: contains_edge_def)
  qed
  have targets: "map edge_to (map (\<lambda>(dir_name, dir_node_id). contains_edge 1 dir_node_id) dn) = map snd dn"
    by (induction dn) (auto simp: contains_edge_def)
  have d: "distinct (map edge_to (map (\<lambda>(dir_name, dir_node_id). contains_edge 1 dir_node_id) dn))"
    unfolding targets by (rule dist)
  from one root seq star d show ?thesis by (simp add: g)
qed

lemma deleted_and_untracked_dataflow:
  "create_dataflow_from_dataset deleted_and_untracked_view ''/tmp/ds'' = Inr deleted_and_untracked_graph"
  by code_simp

lemma build_tree_has_dir:
  "Dir name sub \<in> set entries \<Longrightarrow> name \<noteq> ''.git'' \<Longrightarrow> name \<noteq> ''.datalad''
     \<Longrightarrow> DirItem name (relative_item_path rel name) (build_tree (relative_item_path rel name) sub)
           \<in> set (build_tree rel entries)"
  by (induction rel entries rule: build_tree.induct) auto

text \<open>
  C7. For every stage directory of the dataset (a directory at the top level whose name is
  in \<open>directory_types\<close>), with the counts that \<open>get_stage_files\<close> reports for it,
  the graph has a node for it whose colour is the alert colour \<open>#FF6B6B\<close> when the
  deleted count is positive, else the warning colour \<open>#FFA500\<close> when the untracked
  count is positive, else the base colour of the stage type.
\<close>

theorem synthesize_color_priority:
  assumes "create_dataflow_from_dataset v dataset_path = Inr g"
    and "Dir name sub \<in> set (root_entries v)"
    and "map_of directory_types name = Some dt"
    and "get_stage_files v name = Some (StageCounts fc t u d)"
  shows "\<exists>n \<in> set (nodes g). path n = name \<and> node_type n = dt_type dt
           \<and> untracked_files n = Some u \<and> deleted_files n = Some d
           \<and> color n = (if d > 0 then ''#FF6B6B'' else if u > 0 then ''#FFA500'' else dt_color dt)"
proof -
  from assms(1) obtain ns1 dn1 nid1 ns dn nid where
    l1: "add_directory_nodes v (build_tree [] (root_entries v)) ([central_node dataset_path 1], [], 2)
       = Inr (ns1, dn1, nid1)"
    and l2: "add_missing_stages missing_stages (ns1, dn1, nid1) = (ns, dn, nid)"
    and "wf_state ns dn nid"
    and g: "g = \<lparr> nodes = ns, edges = map (\<lambda>(dir_name, dir_node_id). contains_edge 1 dir_node_id) dn,
           total_stages = length ns, total_connections = length dn \<rparr>"
    by (rule create_dataflow_run)
  from assms(3) have "name \<noteq> ''.git''" "name \<noteq> ''.datalad''"
    by (auto simp: directory_types_def split: if_splits)
  from build_tree_has_dir[OF assms(2) this, of "[]"]
  have "DirItem name name (build_tree name sub) \<in> set (build_tree [] (root_entries v))"
    by (simp add: relative_item_path_def)
  from add_directory_nodes_colored[OF l1 this assms(3,4)]
  obtain n where "n \<in> set ns1" and props: "path n = name" "node_type n = dt_type dt"
    "untracked_files n = Some u" "deleted_files n = Some d"
    "color n = status_color (dt_color dt) d u" by blast
  with add_missing_stages_grows[OF l2] have "n \<in> set (nodes g)" by (auto simp: g)
  with props show ?thesis by (auto simp: status_color_def)
qed

theorem synthesize_color_priority_witness:
  "\<exists>n \<in> set (nodes deleted_and_untracked_graph). path n = ''raw_data''
       \<and> node_type n = dt_type \<lparr> dt_color = ''#87CEEB'', dt_type = ''raw_data'',
                                 dt_description = ''Raw data files'' \<rparr>
       \<and> untracked_files n = Some 1 \<and> deleted_files n = Some 1
       \<and> color n = (if (1::nat) > 0 then ''#FF6B6B'' else if (1::nat) > 0 then ''#FFA500''
                     else dt_color \<lparr> dt_color = ''#87CEEB'', dt_type = ''raw_data'',
                                     dt_description = ''Raw data files'' \<rparr>)"
  by (rule synthesize_color_priority [OF deleted_and_untracked_dataflow _ _ deleted_and_untracked_stage])
     (simp_all add: deleted_and_untracked_view_def directory_types_def)

text \<open>
  C6, as amended. For each of the stages \<open>scripts\<close>, \<open>results\<close> and \<open>plots\<close>
  (the table \<open>missing_stages\<close>) that has no directory at the top level of the dataset,
  the graph has a placeholder node with \<open>file_count = 0\<close> and an edge from the root to
  it. For the dataset with only a \<open>results\<close> directory holding one tracked and one
  untracked file, the graph is the root, the \<open>results\<close> node with
  \<open>tracked_files = 1\<close> and \<open>untracked_files = 1\<close>, and the two placeholders
  \<open>scripts\<close> and \<open>plots\<close>, with three edges, all from the root.
\<close>

theorem synthesize_placeholders:
  "(create_dataflow_from_dataset v dataset_path = Inr g \<and> (s, info) \<in> set missing_stages
      \<and> (\<forall>sub. Dir s sub \<notin> set (root_entries v))
     \<longrightarrow> (\<exists>n \<in> set (nodes g). n = placeholder_node (node_id n) s info \<and> file_count n = 0
            \<and> \<not> is_central n \<and> contains_edge 1 (node_id n) \<in> set (edges g)))
   \<and> create_dataflow_from_dataset results_only_view ''/tmp/ds'' = Inr results_only_graph
   \<and> map (\<lambda>n. (node_id n, node_type n, file_count n, tracked_files n, untracked_files n, is_central n))
        (nodes results_only_graph)
       = [(1, ''dataset_root'', 0, None, None, True), (2, ''results'', 2, Some 1, Some 1, False),
          (3, ''scripts'', 0, None, None, False), (4, ''plots'', 0, None, None, False)]
   \<and> map (\<lambda>e. (edge_from e, edge_to e)) (edges results_only_graph) = [(1, 2), (1, 3), (1, 4)]"
proof (intro conjI impI)
  assume a: "create_dataflow_from_dataset v dataset_path = Inr g \<and> (s, info) \<in> set missing_stages
      \<and> (\<forall>sub. Dir s sub \<notin> set (root_entries v))"
  then obtain ns1 dn1 nid1 ns dn nid where
    l1: "add_directory_nodes v (build_tree [] (root_entries v)) ([central_node dataset_path 1], [], 2)
       = Inr (ns1, dn1, nid1)"
    and l2: "add_missing_stages missing_stages (ns1, dn1, nid1) = (ns, dn, nid)"
    and "wf_state ns dn nid"
    and g: "g = \<lparr> nodes = ns, edges = map (\<lambda>(dir_name, dir_node_id). contains_edge 1 dir_node_id) dn,
           total_stages = length ns, total_connections = length dn \<rparr>"
    by (blast elim: create_dataflow_run)
  have "map_of dn1 s = None"
  proof (rule ccontr)
    assume "map_of dn1 s \<noteq> None"
    from add_directory_nodes_keys[OF l1 this] obtain p ch
      where "DirItem s p ch \<in> set (build_tree [] (root_entries v))" by auto
    from build_tree_dirs[OF this] a show False by blast
  qed
  moreover have "distinct (map fst missing_stages)" by (simp add: missing_stages_def)
  ultimately obtain k where k: "placeholder_node k s info \<in> set ns" "map_of dn s = Some k"
    using add_missing_stages_placeholder[OF l2] a by blast
  from k(2) have "(s, k) \<in> set dn" by (rule map_of_SomeD)
  then have "contains_edge 1 k \<in> set (edges g)" by (force simp: g)
  with k(1) show "\<exists>n \<in> set (nodes g). n = placeholder_node (node_id n) s info \<and> file_count n = 0
            \<and> \<not> is_central n \<and> contains_edge 1 (node_id n) \<in> set (edges g)"
    by (intro bexI[of _ "placeholder_node k s info"]) (simp_all add: g placeholder_node_def)
next
  show "create_dataflow_from_dataset results_only_view ''/tmp/ds'' = Inr results_only_graph"
    by (rule results_only_dataflow)
next
  show "map (\<lambda>n. (node_id n, node_type n, file_count n, tracked_files n, untracked_files n, is_central n))
        (nodes results_only_graph)
       = [(1, ''dataset_root'', 0, None, None, True), (2, ''results'', 2, Some 1, Some 1, False),
          (3, ''scripts'', 0, None, None, False), (4, ''plots'', 0, None, None, False)]"
    by (simp add: results_only_graph_def central_node_def stage_node_def placeholder_node_def)
next
  show "map (\<lambda>e. (edge_from e, edge_to e)) (edges results_only_graph) = [(1, 2), (1, 3), (1, 4)]"
    by (simp add: results_only_graph_def contains_edge_def)
qed

theorem synthesize_placeholders_witness:
  "\<exists>n \<in> set (nodes results_only_graph). node_type n = ''scripts'' \<and> file_count n = 0
       \<and> \<not> is_central n \<and> contains_edge 1 (node_id n) \<in> set (edges results_only_graph)"
proof -
  have "create_dataflow_from_dataset results_only_view ''/tmp/ds'' = Inr results_only_graph
      \<and> (''scripts'', \<lparr> dt_color = ''#4CAF50'', dt_type = ''scripts'',
                        dt_description = ''Analysis and processing scripts'' \<rparr>) \<in> set missing_stages
      \<and> (\<forall>sub. Dir ''scripts'' sub \<notin> set (root_entries results_only_view))"
    using results_only_dataflow by (simp add: missing_stages_def) (simp add: results_only_view_def)
  with synthesize_placeholders [of results_only_view "''/tmp/ds''" results_only_graph "''scripts''"
      "\<lparr> dt_color = ''#4CAF50'', dt_type = ''scripts'',
         dt_description = ''Analysis and processing scripts'' \<rparr>"]
  obtain n where "n \<in> set (nodes results_only_graph)"
    "n = placeholder_node (node_id n) ''scripts'' \<lparr> dt_color = ''#4CAF50'', dt_type = ''scripts'',
         dt_description = ''Analysis and processing scripts'' \<rparr>"
    "file_count n = 0" "\<not> is_central n" "contains_edge 1 (node_id n) \<in> set (edges results_only_graph)"
    by blast
  moreover from this(2) have "node_type n = ''scripts''"
    by (metis (no_types) placeholder_node_def node.select_convs(3) dir_type.select_convs(2))
  ultimately show ?thesis by blast
qed

text \<open>
  The claim C6 as it was stated fails on that dataset: the graph has three edges, not two,
  because \<open>scripts\<close> gets a placeholder as well, and the absent stages
  \<open>raw_data\<close> and \<open>preprocessed\<close> get none.
\<close>

theorem synthesize_results_only_counterexample:
  "create_dataflow_from_dataset results_only_view ''/tmp/ds'' = Inr results_only_graph
   \<and> length (edges results_only_graph) = 3
   \<and> map node_type (nodes results_only_graph) = [''dataset_root'', ''results'', ''scripts'', ''plots'']"
  by (simp add: results_only_dataflow results_only_graph_def central_node_def stage_node_def
        placeholder_node_def)

theorem synthesize_star_invariant_witness:
  "length (filter is_central (nodes results_only_graph)) = 1
       \<and> is_central (hd (nodes results_only_graph))
       \<and> map node_id (nodes results_only_graph) = [1, 2, 3, 4]
       \<and> map edge_from (edges results_only_graph) = [1, 1, 1]
       \<and> distinct (map edge_to (edges results_only_graph))"
  using synthesize_star_invariant [OF results_only_dataflow]
  by (simp add: results_only_graph_def central_node_def stage_node_def placeholder_node_def
        contains_edge_def)

section \<open>Properties of \<open>get_detailed_git_log\<close>\<close>

lemma find_sep_char_absent: "c \<notin> set s \<Longrightarrow> find_sep [c] s = None"
  by (induction s) auto

lemma find_sep_char_first: "c \<notin> set a \<Longrightarrow> find_sep [c] (a @ c # b) = Some (a, b)"
  by (induction a) auto

lemma split_char_single: "c \<notin> set x \<Longrightarrow> split [c] x = [x]"
  by (subst split.simps) (simp add: find_sep_char_absent)

lemma split_char_join:
  "xs \<noteq> [] \<Longrightarrow> \<forall>x \<in> set xs. c \<notin> set x \<Longrightarrow> split [c] (str_join [c] xs) = xs"
proof (induction "[c]" xs rule: str_join.induct)
  case 1
  then show ?case by simp
next
  case (2 x)
  then show ?case by (simp add: split_char_single)
next
  case (3 x y ys)
  then have "find_sep [c] (x @ c # str_join [c] (y # ys)) = Some (x, str_join [c] (y # ys))"
    by (intro find_sep_char_first) simp
  with 3 show ?case by (subst split.simps) simp
qed

lemma strip_id: "s \<noteq> [] \<Longrightarrow> \<not> is_space (hd s) \<Longrightarrow> \<not> is_space (last s) \<Longrightarrow> strip s = s"
proof -
  assume a: "s \<noteq> []" "\<not> is_space (hd s)" "\<not> is_space (last s)"
  then have "dropWhile is_space s = s" by (cases s) auto
  moreover from a have "dropWhile is_space (rev s) = rev s"
    by (cases "rev s") (auto simp: last_rev hd_rev[symmetric] dest: arg_cong[of _ _ hd])
  ultimately show ?thesis by (simp add: strip_def)
qed

lemma strip_nonblank: "s \<noteq> [] \<Longrightarrow> \<not> is_space (hd s) \<Longrightarrow> strip s \<noteq> []"
  by (cases s) (auto simp: strip_def)

lemma pretty_format_unfold:
  "pretty_format c = c_hash c @ CHR ''|'' # c_abbrev c @ CHR ''|'' # c_author c @ CHR ''|'' # c_email c
      @ CHR ''|'' # c_date c @ CHR ''|'' # c_subject c @ CHR ''|'' # c_body c"
  by (simp add: pretty_format_def)

lemma pretty_format_line:
  assumes "well_formed_commit c"
  shows "pretty_format c \<noteq> []" and "\<not> is_space (hd (pretty_format c))"
    and "\<not> is_space (last (pretty_format c))" and "CHR 0x0A \<notin> set (pretty_format c)"
    and "parse_log_line date_labels (pretty_format c) = [record_of date_labels c]"
proof -
  from assms have h: "c_hash c \<noteq> []" "\<not> is_space (hd (c_hash c))"
    and b: "c_body c = [] \<or> \<not> is_space (last (c_body c))"
    and nl: "CHR 0x0A \<notin> set (c_hash c)" "CHR 0x0A \<notin> set (c_abbrev c)" "CHR 0x0A \<notin> set (c_author c)"
      "CHR 0x0A \<notin> set (c_email c)" "CHR 0x0A \<notin> set (c_date c)" "CHR 0x0A \<notin> set (c_subject c)"
      "CHR 0x0A \<notin> set (c_body c)"
    and bar: "\<forall>f \<in> set [c_hash c, c_abbrev c, c_author c, c_email c, c_date c, c_subject c, c_body c].
                CHR ''|'' \<notin> set f"
    by (auto simp: well_formed_commit_def)
  show ne: "pretty_format c \<noteq> []" by (simp add: pretty_format_unfold)
  show sp: "\<not> is_space (hd (pretty_format c))" using h by (simp add: pretty_format_unfold)
  show "\<not> is_space (last (pretty_format c))"
    using b by (auto simp: pretty_format_unfold is_space_def)
  show "CHR 0x0A \<notin> set (pretty_format c)" using nl by (simp add: pretty_format_unfold)
  have "split ''|'' (pretty_format c)
          = [c_hash c, c_abbrev c, c_author c, c_email c, c_date c, c_subject c, c_body c]"
    unfolding pretty_format_def by (rule split_char_join) (use bar in simp_all)
  with strip_nonblank[OF ne sp] show "parse_log_line date_labels (pretty_format c) = [record_of date_labels c]"
    by (simp add: parse_log_line_def record_of_def)
qed

lemma hd_str_join: "x \<noteq> [] \<Longrightarrow> hd (str_join sep (x # xs)) = hd x"
  by (cases xs) auto

lemma str_join_nonempty: "xs \<noteq> [] \<Longrightarrow> last xs \<noteq> [] \<Longrightarrow> str_join sep xs \<noteq> []"
  by (induction sep xs rule: str_join.induct) auto

lemma last_str_join: "xs \<noteq> [] \<Longrightarrow> last xs \<noteq> [] \<Longrightarrow> last (str_join sep xs) = last (last xs)"
proof (induction sep xs rule: str_join.induct)
  case (1 sep)
  then show ?case by simp
next
  case (2 sep x)
  then show ?case by simp
next
  case (3 sep x y ys)
  from "3.prems" have l: "last (y # ys) \<noteq> []" by simp
  then have "str_join sep (y # ys) \<noteq> []" by (intro str_join_nonempty) simp_all
  moreover from "3.IH" l have "last (str_join sep (y # ys)) = last (last (y # ys))" by simp
  ultimately show ?case by simp
qed

lemma parse_well_formed_log:
  assumes "\<forall>c \<in> set cs. well_formed_commit c"
  shows "concat (map (parse_log_line date_labels)
           (split [CHR 0x0A] (strip (str_join [CHR 0x0A] (map pretty_format cs)))))
         = map (record_of date_labels) cs"
proof (cases "cs = []")
  case True
  have "split [CHR 0x0A] [] = [[]]" by (subst split.simps) simp
  with True show ?thesis by (simp add: strip_def parse_log_line_def)
next
  case False
  let ?ls = "map pretty_format cs"
  let ?out = "str_join [CHR 0x0A] ?ls"
  from False have ne: "?ls \<noteq> []" by simp
  from False assms have lastwf: "well_formed_commit (last cs)" and hdwf: "well_formed_commit (hd cs)"
    by auto
  have lastne: "last ?ls \<noteq> []" using False pretty_format_line(1)[OF lastwf] by (simp add: last_map)
  have out_ne: "?out \<noteq> []" by (rule str_join_nonempty[OF ne lastne])
  obtain c rest where cs: "cs = c # rest" using False by (cases cs) auto
  have "hd ?out = hd (pretty_format c)"
    using pretty_format_line(1)[OF hdwf] by (simp add: cs hd_str_join)
  with pretty_format_line(2)[OF hdwf] have hd_ok: "\<not> is_space (hd ?out)" by (simp add: cs)
  have "last ?out = last (pretty_format (last cs))"
    using last_str_join[OF ne lastne] False by (simp add: last_map)
  with pretty_format_line(3)[OF lastwf] have last_ok: "\<not> is_space (last ?out)" by simp
  have strip_out: "strip ?out = ?out" by (rule strip_id[OF out_ne hd_ok last_ok])
  have "\<forall>x \<in> set ?ls. CHR 0x0A \<notin> set x" using assms pretty_format_line(4) by auto
  from split_char_join[OF ne this] have lines: "split [CHR 0x0A] ?out = ?ls" .
  have "concat (map (parse_log_line date_labels) ?ls) = map (record_of date_labels) cs"
    using assms by (induction cs) (simp_all add: pretty_format_line(5))
  with strip_out lines show ?thesis by simp
qed

text \<open>
  On a log whose commits are well formed the query returns one record per printed commit,
  in the order of the log: the first \<open>limit\<close> commits of the history, newest first.
\<close>

theorem history_of_well_formed_log:
  assumes "path_exists e h dataset_path"
    and "respond e h ([''git'', ''log'', ''--pretty=format:%H|%h|%an|%ae|%ad|%s|%b'', ''--date=iso'',
                       ''-n'', show_nat limit], dataset_path)
           = Completed 0 (git_log_output history limit) err"
    and "\<forall>c \<in> set (take limit history). well_formed_commit c"
  shows "fst (get_detailed_git_log e date_labels dataset_path limit h)
           = Inr (map (record_of date_labels) (take limit history))"
  using assms parse_well_formed_log[of "take limit history" date_labels]
  by (simp add: get_detailed_git_log_def run_checked_def subprocess_run_def git_log_output_def)

theorem history_of_well_formed_log_witness:
  "fst (get_detailed_git_log plain_env (\<lambda>d. (d, ''Unknown'')) ''/tmp/ds'' 1 [])
     = Inr (map (record_of (\<lambda>d. (d, ''Unknown''))) (take 1 plain_history))"
  by (rule history_of_well_formed_log [where err = "[]"])
     (simp_all add: plain_env_def plain_history_def well_formed_commit_def is_space_def)

text \<open>
  C9. The history query with limit 1 on the history \<open>table_history\<close>, whose newest commit
  has a body line with six \<open>|\<close>: the log command prints one commit, and the query returns
  two records, the second one made of the pieces of that body line. The records come in the
  order of the output lines, but there are not exactly \<open>limit\<close> of them.
\<close>

theorem history_limit_one_gives_two_records:
  "(case fst (get_detailed_git_log table_env (\<lambda>d. (d, ''Unknown'')) ''/tmp/ds'' 1 []) of
      Inr records \<Rightarrow>
        map (\<lambda>r. (full_hash r, short_hash r, subject r, body r)) records
          = [(''1f3a9c0d2b4e6f8a1c3e5a7b9d0f2e4c6a8b0d1e'', ''1f3a9c0'', ''Add results table'',
              ''Summary of the runs:''),
             ([], '' run '', '' p '', [])]
    | Inl _ \<Rightarrow> False)"
  by code_simp

end
